theory Spec2Isabelle
  imports Complex_Main "HOL-Library.Word" "HOL-Library.Multiset"
begin

unbundle bit_operations_syntax

section \<open>Data model\<close>

text \<open>
  JavaScript strings are modelled as \<^typ>\<open>string\<close>; one \<^typ>\<open>char\<close> stands for one
  code unit below 256. A JavaScript number that holds an integer is an \<^typ>\<open>int\<close>
  (exact arithmetic, that is, inside the safe-integer range of a double), and the
  author-type bitset, which the source combines with \<open>|\<close> and tests with \<open>&\<close>, is a
  32-bit word. \<open>null\<close> and \<open>undefined\<close> are \<open>None\<close>.
\<close>

record item =
  type :: string
  "text" :: string

datatype message_id = YtcId string | RelayId nat

text \<open>
  The \<open>Message\<close> object built by \<open>ytcToMsg\<close> (sources.js) and by \<open>mchadToMessage\<close>
  (mchad.js). \<open>ytcToMsg\<close> copies the chat item's own id, \<open>mchadToMessage\<close> draws a
  number from \<open>mchadTLCounter\<close>; \<open>langCode\<close> is absent from a chat message.
\<close>

record message =
  "text" :: string
  messageArray :: "item list"
  author :: string
  authorId :: string
  langCode :: "string option"
  messageId :: message_id
  timestamp :: string
  types :: "32 word"
  timestampMs :: int

section \<open>sources.js: the classifier\<close>

text \<open>
  What sources.js imports from modules that are not among the sources is a parameter:
  the functions of \<open>./filter\<close>, the two toggles of \<open>./store\<close> (read with \<open>.get()\<close> when a
  message is classified) and the \<open>AuthorType\<close> flags of \<open>./constants\<close>. \<open>'p\<close> is the type
  of what \<open>parseTranslation\<close> returns, and \<open>parsed_msg\<close> reads its field \<open>msg\<close>.
\<close>

record 'p imported =
  parseTranslation :: "string \<Rightarrow> 'p"
  parsed_msg :: "'p \<Rightarrow> string option"
  isTranslation :: "'p \<Rightarrow> bool"
  textWhitelisted :: "string \<Rightarrow> bool"
  textBlacklisted :: "string \<Rightarrow> bool"
  authorWhitelisted :: "string \<Rightarrow> bool"
  authorBlacklisted :: "string \<Rightarrow> bool"
  replaceFirstTranslation :: "message \<Rightarrow> message"
  showModMessage :: bool
  showVerifiedMessage :: bool
  moderator :: "32 word"
  owner :: "32 word"
  verified :: "32 word"

definition isWhitelisted :: "'p imported \<Rightarrow> message \<Rightarrow> bool" where
  "isWhitelisted E msg \<longleftrightarrow> textWhitelisted E (text msg) \<or> authorWhitelisted E (author msg)"

definition isBlacklisted :: "'p imported \<Rightarrow> message \<Rightarrow> bool" where
  "isBlacklisted E msg \<longleftrightarrow> textBlacklisted E (text msg) \<or> authorBlacklisted E (author msg)"

definition isMod :: "'p imported \<Rightarrow> message \<Rightarrow> bool" where
  "isMod E msg \<longleftrightarrow> (types msg AND moderator E) \<noteq> 0 \<or> (types msg AND owner E) \<noteq> 0"

definition showIfMod :: "'p imported \<Rightarrow> message \<Rightarrow> bool" where
  "showIfMod E msg \<longleftrightarrow> isMod E msg \<and> showModMessage E"

definition showIfVerified :: "'p imported \<Rightarrow> message \<Rightarrow> bool" where
  "showIfVerified E msg \<longleftrightarrow> (types msg AND verified E) \<noteq> 0 \<and> showVerifiedMessage E"

text \<open>
  \<open>String.prototype.trim\<close> removes white space and line terminators at both ends; below
  256 these are TAB, LF, VT, FF, CR, SP and NBSP. The regular expression class \<open>\s\<close> is
  the same set.
\<close>

definition is_space :: "char \<Rightarrow> bool" where
  "is_space c \<longleftrightarrow> c \<in> set [CHR 0x09, CHR 0x0A, CHR 0x0B, CHR 0x0C, CHR 0x0D, CHR 0x20, CHR 0xA0]"

definition trim :: "string \<Rightarrow> string" where
  "trim s = rev (dropWhile is_space (rev (dropWhile is_space s)))"

text \<open>
  The three writable stores a chat message can be routed to. \<open>store.set(v)\<close> is a write
  \<open>(store, v)\<close>; \<open>store_set\<close> performs it on the stores, each of which holds its latest
  value and starts as \<open>writable(null)\<close>.
\<close>

datatype stream = ChatTranslations | Mod | Verified

type_synonym ytc_sources = "stream \<Rightarrow> message option"

definition store_set :: "stream \<times> message \<Rightarrow> ytc_sources \<Rightarrow> ytc_sources" where
  "store_set w S = S(fst w := Some (snd w))"

text \<open>
  \<open>setStoreMessage = store => (msg, text) => store.set({ ...msg, text: text ?? msg.text })\<close>:
  the write it makes. An omitted second argument is \<open>None\<close>.
\<close>

definition setStoreMessage :: "stream \<Rightarrow> message \<Rightarrow> string option \<Rightarrow> stream \<times> message" where
  "setStoreMessage store msg txt =
     (store, msg\<lparr>text := (case txt of Some t \<Rightarrow> t | None \<Rightarrow> text msg)\<rparr>)"

text \<open>
  The callback that \<open>attachFilters\<close> subscribes to the chat store: the write it makes for
  one value of the chat store, or \<open>None\<close> when it returns without calling \<open>set\<close>.
\<close>

definition attachFilters :: "'p imported \<Rightarrow> message option \<Rightarrow> (stream \<times> message) option" where
  "attachFilters E message =
     (case message of
        None \<Rightarrow> None
      | Some m \<Rightarrow>
          if isBlacklisted E m then None
          else
            let txt = trim (text m);
                parsed = parseTranslation E txt
            in if txt \<noteq> [] \<and> isTranslation E parsed then
                 Some (setStoreMessage ChatTranslations (replaceFirstTranslation E m) (parsed_msg E parsed))
               else if txt \<noteq> [] \<and> isWhitelisted E m then
                 Some (setStoreMessage ChatTranslations m None)
               else if showIfMod E m then
                 Some (setStoreMessage Mod m None)
               else if showIfVerified E m then
                 Some (setStoreMessage Verified m None)
               else None)"

definition chat_subscriber :: "'p imported \<Rightarrow> message option \<Rightarrow> ytc_sources \<Rightarrow> ytc_sources" where
  "chat_subscriber E message S =
     (case attachFilters E message of None \<Rightarrow> S | Some w \<Rightarrow> store_set w S)"

section \<open>mchad.js: rooms, language tags and the archive script\<close>

text \<open>
  A JavaScript number that need not be an integer is a \<open>number\<close>: \<open>None\<close> is \<open>NaN\<close>, and
  \<open>Some r\<close> is the exact value \<open>r\<close> (the rounding of doubles is not modelled).
\<close>

type_synonym number = "rat option"

definition js_add :: "number \<Rightarrow> number \<Rightarrow> number" where
  "js_add l r = (case l of None \<Rightarrow> None | Some a \<Rightarrow> (case r of None \<Rightarrow> None | Some b \<Rightarrow> Some (a + b)))"

definition js_ge0 :: "number \<Rightarrow> bool" where
  "js_ge0 n = (case n of None \<Rightarrow> False | Some r \<Rightarrow> 0 \<le> r)"

record language =
  code :: string

record room =
  Nick :: string
  Room :: string
  Link :: string
  Tags :: string

record MCHADTL =
  Stext :: string
  Stime :: int

text \<open>
  What mchad.js imports from modules that are not among the sources: the table
  \<open>languagesInfo\<close> and the flag \<open>AuthorType.mchad\<close> of \<open>./constants\<close>, \<open>isLangMatch\<close> of
  \<open>./filter\<close> and \<open>formatTimestampMillis\<close> of \<open>./utils\<close>. \<open>localeTime unix\<close> stands for
  \<open>new Date(unix).toLocaleString('en-us').split(', ')[1]\<close>, which depends on the host's
  time zone.
\<close>

record mchad_imported =
  languagesInfo :: "language list"
  isLangMatch :: "string \<Rightarrow> language \<Rightarrow> bool"
  formatTimestampMillis :: "int \<Rightarrow> string"
  localeTime :: "int \<Rightarrow> string"
  AuthorType_mchad :: "32 word"

text \<open>\<open>tag.split(/\s+/g)\<close>: a run of white space separates two tokens, which may be empty.\<close>

function split_ws :: "string \<Rightarrow> string list" where
  "split_ws [] = [[]]"
| "split_ws (c # cs) =
     (if is_space c then [] # split_ws (dropWhile is_space cs)
      else (case split_ws cs of t # ts \<Rightarrow> (c # t) # ts | [] \<Rightarrow> [[c]]))"
  by pat_completeness auto
termination
  by (relation "measure length") (auto simp: length_dropWhile_le less_Suc_eq_le)

definition possibleLanguages :: "mchad_imported \<Rightarrow> string \<Rightarrow> language list" where
  "possibleLanguages E tag = filter (\<lambda>lang. isLangMatch E tag lang) (languagesInfo E)"

definition getRoomTagLanguageCode :: "mchad_imported \<Rightarrow> string \<Rightarrow> string option" where
  "getRoomTagLanguageCode E tag =
     (let possible = concat (map (possibleLanguages E) (split_ws tag))
      in if possible = [] then None else Some (code (possible ! (length possible - 1))))"

subsection \<open>The stream-start marker\<close>

text \<open>
  \<open>/--.*Stream.*Start.*--/i.test(s)\<close>. The dot matches no line terminator and no literal
  of the pattern holds one, so a match lies inside one line: the line holds \<open>--\<close>, later
  \<open>stream\<close>, later \<open>start\<close>, later \<open>--\<close>, the letters in either case. Without the \<open>u\<close>
  flag only the ASCII letters fold onto one another.
\<close>

definition lower :: "char \<Rightarrow> char" where
  "lower c = (let n = (of_char c :: nat) in if 65 \<le> n \<and> n \<le> 90 then char_of (n + 32) else c)"

definition is_line_terminator :: "char \<Rightarrow> bool" where
  "is_line_terminator c \<longleftrightarrow> c = CHR 0x0A \<or> c = CHR 0x0D"

fun starts_ci :: "string \<Rightarrow> string \<Rightarrow> bool" where
  "starts_ci [] s = True"
| "starts_ci (p # ps) [] = False"
| "starts_ci (p # ps) (c # cs) = (lower c = lower p \<and> starts_ci ps cs)"

text \<open>
  \<open>after_ci p s\<close>: what follows the leftmost occurrence of \<open>p\<close> in \<open>s\<close> that is reached
  without crossing a line terminator.
\<close>

fun after_ci :: "string \<Rightarrow> string \<Rightarrow> string option" where
  "after_ci p [] = (if p = [] then Some [] else None)"
| "after_ci p (c # cs) =
     (if starts_ci p (c # cs) then Some (drop (length p) (c # cs))
      else if is_line_terminator c then None
      else after_ci p cs)"

definition marker_here :: "string \<Rightarrow> bool" where
  "marker_here s =
     (if starts_ci ''--'' s then
        (case after_ci ''stream'' (drop 2 s) of
           None \<Rightarrow> False
         | Some r1 \<Rightarrow>
             (case after_ci ''start'' r1 of
                None \<Rightarrow> False
              | Some r2 \<Rightarrow> after_ci ''--'' r2 \<noteq> None))
      else False)"

fun isStreamStart :: "string \<Rightarrow> bool" where
  "isStreamStart [] = False"
| "isStreamStart (c # cs) = (marker_here (c # cs) \<or> isStreamStart cs)"

text \<open>
  The meaning of the pattern, stated without the search: \<open>marker_split t\<close> says that the
  pattern matches at the start of \<open>t\<close>, the three \<open>.*\<close> standing for \<open>b\<close>, \<open>c\<close> and \<open>d\<close>; the
  test succeeds on a string of which some suffix is so matched. \<open>isStreamStart\<close> is shown
  below to decide exactly that.
\<close>

definition one_line :: "string \<Rightarrow> bool" where
  "one_line s \<longleftrightarrow> (\<forall>c\<in>set s. \<not> is_line_terminator c)"

definition marker_split :: "string \<Rightarrow> bool" where
  "marker_split s \<longleftrightarrow>
     (\<exists>D b S c T d D' e.
        s = D @ b @ S @ c @ T @ d @ D' @ e
        \<and> map lower D = ''--'' \<and> map lower S = ''stream'' \<and> map lower T = ''start''
        \<and> map lower D' = ''--'' \<and> one_line b \<and> one_line c \<and> one_line d)"

definition getFirstTime :: "MCHADTL list \<Rightarrow> int" where
  "getFirstTime script =
     (case find (\<lambda>s. isStreamStart (Stext s)) script of
        Some s \<Rightarrow> Stime s
      | None \<Rightarrow> (case script of s # _ \<Rightarrow> Stime s | [] \<Rightarrow> 0))"

subsection \<open>Timestamps of the archive\<close>

definition archiveUnixToTimestamp :: "mchad_imported \<Rightarrow> int \<Rightarrow> int \<Rightarrow> string" where
  "archiveUnixToTimestamp E startUnix unix = formatTimestampMillis E (unix - startUnix)"

definition archiveUnixToNumber :: "int \<Rightarrow> int \<Rightarrow> int" where
  "archiveUnixToNumber startUnix unix = unix - startUnix"

text \<open>\<open>archiveTime.split(':')\<close>: the pieces between the colons, at least one.\<close>

fun split_colon :: "string \<Rightarrow> string list" where
  "split_colon [] = [[]]"
| "split_colon (c # cs) =
     (if c = CHR '':'' then [] # split_colon cs
      else (case split_colon cs of t # ts \<Rightarrow> (c # t) # ts | [] \<Rightarrow> [[c]]))"

text \<open>
  \<open>parseInt(t)\<close> with no radix: leading white space is skipped, a sign is read, the
  prefix \<open>0x\<close> or \<open>0X\<close> selects radix 16, and the longest run of digits is the value; with
  no digit the result is \<open>NaN\<close>.
\<close>

definition digit_of :: "char \<Rightarrow> nat option" where
  "digit_of c =
     (let n = (of_char c :: nat)
      in if 48 \<le> n \<and> n \<le> 57 then Some (n - 48)
         else if 97 \<le> n \<and> n \<le> 102 then Some (n - 87)
         else if 65 \<le> n \<and> n \<le> 70 then Some (n - 55)
         else None)"

definition is_digit :: "nat \<Rightarrow> char \<Rightarrow> bool" where
  "is_digit radix c = (case digit_of c of None \<Rightarrow> False | Some d \<Rightarrow> d < radix)"

definition digits_value :: "nat \<Rightarrow> string \<Rightarrow> nat" where
  "digits_value radix ds = foldl (\<lambda>acc c. acc * radix + (case digit_of c of Some d \<Rightarrow> d | None \<Rightarrow> 0)) 0 ds"

definition parse_digits :: "nat \<Rightarrow> string \<Rightarrow> nat option" where
  "parse_digits radix s =
     (let ds = takeWhile (is_digit radix) s
      in if ds = [] then None else Some (digits_value radix ds))"

definition parse_unsigned :: "string \<Rightarrow> nat option" where
  "parse_unsigned s =
     (case s of
        a # b # rest \<Rightarrow>
          if a = CHR ''0'' \<and> (b = CHR ''x'' \<or> b = CHR ''X'') then parse_digits 16 rest
          else parse_digits 10 s
      | _ \<Rightarrow> parse_digits 10 s)"

definition parseInt :: "string \<Rightarrow> number" where
  "parseInt t =
     (case dropWhile is_space t of
        [] \<Rightarrow> None
      | c # cs \<Rightarrow>
          if c = CHR ''-'' then map_option (\<lambda>n. - of_nat n) (parse_unsigned cs)
          else if c = CHR ''+'' then map_option of_nat (parse_unsigned cs)
          else map_option of_nat (parse_unsigned (c # cs)))"

text \<open>
  \<open>.map((t, i) => t * Math.pow(60, 2 - i))\<close>: the factor of the component at index \<open>i\<close>,
  and the products from index \<open>i\<close> on.
\<close>

definition pow60 :: "nat \<Rightarrow> rat" where
  "pow60 i = (if i \<le> 2 then 60 ^ (2 - i) else 1 / 60 ^ (i - 2))"

fun weigh :: "nat \<Rightarrow> number list \<Rightarrow> number list" where
  "weigh i [] = []"
| "weigh i (t # ts) = map_option (\<lambda>r. r * pow60 i) t # weigh (Suc i) ts"

text \<open>\<open>.reduce((l, r) => l + r)\<close> with no initial value, on a list that is never empty.\<close>

definition archiveTimeToInt :: "string \<Rightarrow> number" where
  "archiveTimeToInt archiveTime =
     (case weigh 0 (map parseInt (split_colon archiveTime)) of
        [] \<Rightarrow> None
      | x # xs \<Rightarrow> foldl js_add x xs)"

subsection \<open>Building relay messages\<close>

text \<open>
  \<open>mchadTLCounter\<close> is the module's counter, passed in and returned: a natural number,
  starting at 0 and only ever incremented (a double counts exactly up to \<open>2^53\<close>).
  \<open>mchadToMessage\<close> pre-increments it for the \<open>messageId\<close>.
\<close>

definition mchadToMessage ::
  "mchad_imported \<Rightarrow> string \<Rightarrow> (int \<Rightarrow> string) \<Rightarrow> (int \<Rightarrow> int) \<Rightarrow> string option
     \<Rightarrow> MCHADTL \<Rightarrow> nat \<Rightarrow> message \<times> nat" where
  "mchadToMessage E author' unixToTimestamp unixToNumber langCode' data mchadTLCounter =
     (\<lparr> text = Stext data,
        messageArray = [\<lparr> type = ''text'', text = Stext data \<rparr>],
        author = author',
        authorId = author',
        langCode = langCode',
        messageId = RelayId (Suc mchadTLCounter),
        timestamp = unixToTimestamp (Stime data),
        types = AuthorType_mchad E,
        timestampMs = unixToNumber (Stime data) \<rparr>,
      Suc mchadTLCounter)"

text \<open>\<open>script.map(toMessage)\<close>, the counter threaded from left to right.\<close>

fun map_counter :: "('a \<Rightarrow> nat \<Rightarrow> 'b \<times> nat) \<Rightarrow> 'a list \<Rightarrow> nat \<Rightarrow> 'b list \<times> nat" where
  "map_counter f [] c = ([], c)"
| "map_counter f (x # xs) c =
     (case f x c of (y, c') \<Rightarrow> (case map_counter f xs c' of (ys, c'') \<Rightarrow> (y # ys, c'')))"

text \<open>
  \<open>getArchiveFromRoom\<close>; \<open>script\<close> is what the POST to \<open>/Archive\<close> resolved to (\<open>[]\<close> when
  the request failed).
\<close>

definition getArchiveFromRoom :: "mchad_imported \<Rightarrow> room \<Rightarrow> MCHADTL list \<Rightarrow> nat \<Rightarrow> message list \<times> nat" where
  "getArchiveFromRoom E room script mchadTLCounter =
     (let firstTime = getFirstTime script;
          toMessage = mchadToMessage E (Room room) (archiveUnixToTimestamp E firstTime)
                        (archiveUnixToNumber firstTime) (getRoomTagLanguageCode E (Tags room))
      in map_counter toMessage script mchadTLCounter)"

record tl_entry = message +
  unix :: number

definition addUnix :: "message \<Rightarrow> tl_entry" where
  "addUnix m = message.extend m (tl_entry.fields (archiveTimeToInt (timestamp m)))"

text \<open>
  Modelled from the spec: \<open>sortBy\<close> of \<open>./utils\<close> is not among the sources. The spec has the
  entries "sorted ascending by that integer": a stable sort on the named numeric field.
  The spec does not say where a \<open>NaN\<close> key goes; here it counts as 0, and \<open>getArchive\<close>
  sorts only what is left after the entries with such a key are removed.
\<close>

definition sortBy :: "('a \<Rightarrow> number) \<Rightarrow> 'a list \<Rightarrow> 'a list" where
  "sortBy attr arr = sort_key (\<lambda>e. case attr e of Some r \<Rightarrow> r | None \<Rightarrow> 0) arr"

text \<open>\<open>getScript\<close> of \<open>getArchive\<close>: the sequence prepared for one archive room.\<close>

definition getScript :: "mchad_imported \<Rightarrow> room \<Rightarrow> MCHADTL list \<Rightarrow> nat \<Rightarrow> tl_entry list \<times> nat" where
  "getScript E room script mchadTLCounter =
     (case getArchiveFromRoom E room script mchadTLCounter of
        (s, c') \<Rightarrow> (sortBy unix (filter (\<lambda>e. js_ge0 (unix e)) (map addUnix s)), c'))"

subsection \<open>The suppression registry and the relay subscribers\<close>

text \<open>
  Modelled from the spec: \<open>mchadUsers\<close> of \<open>./store.js\<close> is not among the sources. The spec
  has it as a "mapping from author name to a boolean suppressed flag", an author being
  "initialized unsuppressed": \<open>get\<close> of an author that was never set is \<open>False\<close>.
\<close>

type_synonym registry = "string \<rightharpoonup> bool"

definition mchadUsers_get :: "registry \<Rightarrow> string \<Rightarrow> bool" where
  "mchadUsers_get users a = (case users a of Some flag \<Rightarrow> flag | None \<Rightarrow> False)"

definition mchadUsers_set :: "string \<Rightarrow> bool \<Rightarrow> registry \<Rightarrow> registry" where
  "mchadUsers_set a flag users = users(a \<mapsto> flag)"

datatype error = TypeError

text \<open>\<open>script[0].author\<close>: reading \<open>author\<close> of \<open>undefined\<close> throws.\<close>

definition getScriptAuthor :: "tl_entry list \<Rightarrow> error + string" where
  "getScriptAuthor script = (case script of [] \<Rightarrow> Inl TypeError | e # _ \<Rightarrow> Inr (author e))"

definition isNotEmpty :: "'a list \<Rightarrow> bool" where
  "isNotEmpty arr \<longleftrightarrow> length arr \<noteq> 0"

text \<open>
  \<open>scripts.map(getScriptAuthor).forEach(author => mchadUsers.set(author, mchadUsers.get(author)))\<close>
  on the scripts that \<open>filter(isNotEmpty)\<close> kept.
\<close>

fun registerAuthors :: "tl_entry list list \<Rightarrow> registry \<Rightarrow> error + registry" where
  "registerAuthors [] users = Inr users"
| "registerAuthors (script # scripts) users =
     (case getScriptAuthor script of
        Inl e \<Rightarrow> Inl e
      | Inr a \<Rightarrow> registerAuthors scripts (mchadUsers_set a (mchadUsers_get users a) users))"

definition getArchive_register :: "tl_entry list list \<Rightarrow> registry \<Rightarrow> error + registry" where
  "getArchive_register scripts users = registerAuthors (filter isNotEmpty scripts) users"

text \<open>
  The callbacks that \<open>getArchive\<close> and \<open>getLiveTranslations\<close> subscribe to each room's
  stream: \<open>Some v\<close> when the callback calls \<open>set(v)\<close> on the readable, \<open>None\<close> when it does
  not. \<open>enableMchadTLs\<close> is the toggle's value when the callback runs.
\<close>

definition getArchive_subscriber :: "bool \<Rightarrow> registry \<Rightarrow> tl_entry option \<Rightarrow> tl_entry option" where
  "getArchive_subscriber enableMchadTLs users tl' =
     (case tl' of
        None \<Rightarrow> None
      | Some t \<Rightarrow> if enableMchadTLs \<and> \<not> mchadUsers_get users (author t) then Some t else None)"

definition getLiveTranslations_subscriber :: "bool \<Rightarrow> registry \<Rightarrow> message option \<Rightarrow> message option" where
  "getLiveTranslations_subscriber enableMchadTLs users msg =
     (case msg of
        None \<Rightarrow> None
      | Some m \<Rightarrow> if enableMchadTLs \<and> \<not> mchadUsers_get users (author m) then Some m else None)"

subsection \<open>Live rooms\<close>

text \<open>\<open>time.replace(/:\d\d /, ' ')\<close>: the leftmost colon, two digits and space lose all but the space.\<close>

fun removeSeconds :: "string \<Rightarrow> string" where
  "removeSeconds (a # b # c # d # rest) =
     (if a = CHR '':'' \<and> is_digit 10 b \<and> is_digit 10 c \<and> d = CHR '' '' then d # rest
      else a # removeSeconds (b # c # d # rest))"
| "removeSeconds s = s"

definition liveUnixToTimestamp :: "mchad_imported \<Rightarrow> int \<Rightarrow> string" where
  "liveUnixToTimestamp E u = removeSeconds (localeTime E u)"

record stream_item =
  flag :: "string option"
  content :: MCHADTL

text \<open>
  The callback of \<open>getRoomTranslations\<close> for one event of the room's listener: the message
  it sets, if any, and the counter afterwards.
\<close>

definition getRoomTranslations ::
  "mchad_imported \<Rightarrow> bool \<Rightarrow> room \<Rightarrow> stream_item option \<Rightarrow> nat \<Rightarrow> message option \<times> nat" where
  "getRoomTranslations E enableMchadTLs room data mchadTLCounter =
     (if \<not> enableMchadTLs then (None, mchadTLCounter)
      else
        let flag' = (case data of None \<Rightarrow> None | Some d \<Rightarrow> flag d);
            langCode' = getRoomTagLanguageCode E (Tags room);
            toMessage = mchadToMessage E (Nick room) (liveUnixToTimestamp E) (\<lambda>u. u) langCode'
        in (case data of
              None \<Rightarrow> (None, mchadTLCounter)
            | Some d \<Rightarrow>
                if flag' = Some ''insert'' \<or> flag' = Some ''update'' then
                  (case toMessage (content d) mchadTLCounter of (m, c') \<Rightarrow> (Some m, c'))
                else (None, mchadTLCounter)))"

text \<open>
  Every construction of a relay message, in the order the program makes them: the
  script of an archive room mapped by \<open>getArchiveFromRoom\<close>, or one listener event handled
  by \<open>getRoomTranslations\<close>. \<open>construct\<close> returns the messages built and the counter.
\<close>

datatype construction =
  Archive room "MCHADTL list"
| Live bool room "stream_item option"

fun construct :: "mchad_imported \<Rightarrow> construction list \<Rightarrow> nat \<Rightarrow> message list \<times> nat" where
  "construct E [] c = ([], c)"
| "construct E (Archive room script # rest) c =
     (case getArchiveFromRoom E room script c of
        (ms, c') \<Rightarrow> (case construct E rest c' of (ms', c'') \<Rightarrow> (ms @ ms', c'')))"
| "construct E (Live enableMchadTLs room data # rest) c =
     (case getRoomTranslations E enableMchadTLs room data c of
        (m, c') \<Rightarrow> (case construct E rest c' of (ms', c'') \<Rightarrow> (case m of None \<Rightarrow> ms' | Some x \<Rightarrow> x # ms', c'')))"

definition relay_id :: "message \<Rightarrow> nat" where
  "relay_id m = (case messageId m of RelayId n \<Rightarrow> n | YtcId _ \<Rightarrow> 0)"

subsection \<open>Waiting for a live room\<close>

text \<open>
  \<open>getLiveRoomsWithRetry\<close>. \<open>getRooms_live k\<close> is the \<open>live\<close> list that the call number \<open>k\<close>
  of \<open>getRooms(videoLink)\<close> resolves to, and \<open>slept\<close> collects the arguments of \<open>sleep\<close>, in
  milliseconds. The loop has no bound: a run that never sees a live room is \<open>None\<close>.
\<close>

partial_function (option) getLiveRoomsWithRetry ::
  "(nat \<Rightarrow> room list) \<Rightarrow> int \<Rightarrow> nat \<Rightarrow> int list \<Rightarrow> (room list \<times> int list) option" where
  "getLiveRoomsWithRetry getRooms_live retryInterval k slept =
     (if length (getRooms_live k) \<noteq> 0 then Some (getRooms_live k, slept)
      else getLiveRoomsWithRetry getRooms_live retryInterval (Suc k) (slept @ [retryInterval * 1000]))"

text \<open>\<open>getLiveTranslations\<close> waits with an interval of 30 seconds.\<close>

definition getLiveTranslations_rooms :: "(nat \<Rightarrow> room list) \<Rightarrow> (room list \<times> int list) option" where
  "getLiveTranslations_rooms getRooms_live = getLiveRoomsWithRetry getRooms_live 30 0 []"

section \<open>sources.js: combining stores\<close>

text \<open>
  \<open>combineStores(...stores)\<close> creates \<open>combined = writable(null)\<close> and subscribes the
  callback \<open>v => combined.set(v)\<close> to every input store, keeping the handles in
  \<open>unsubscribes\<close>. The stores are svelte's and hold a message or \<open>null\<close>: \<open>subscribe\<close> calls
  the callback at once with the current value and returns a handle, and \<open>set\<close> stores the
  value and hands it to the subscribers (a message always counts as a new value; a
  \<open>null\<close> written over \<open>null\<close> is handed to nobody).

  An input store, as the combination sees it: whether the callback is still among its
  subscribers, whether the store is a \<open>readable(null, async set => ...)\<close>, as \<open>getArchive\<close>
  and \<open>getLiveTranslations\<close> build it, and the subscriptions to the streams of rooms that
  its start callback has made, each still subscribed or not. A store with no start
  callback, such as \<open>writable(null)\<close>, has none.
\<close>

record input_store =
  subscribed :: bool
  async_start :: bool
  room_subscriptions :: "bool list"

text \<open>
  The handle that \<open>subscribe\<close> returned. It removes the callback from the subscribers
  and, the callback having been the only one, calls the store's stop function, which is
  what the start callback returned. A start callback that is not \<open>async\<close> returns the
  function that unsubscribes the rooms. An \<open>async\<close> one returns a promise of that
  function: calling the promise throws a \<open>TypeError\<close>, and the rooms stay subscribed.
\<close>

definition call_handle :: "input_store \<Rightarrow> error option \<times> input_store" where
  "call_handle s =
     (if async_start s then (Some TypeError, s\<lparr>subscribed := False\<rparr>)
      else (None, s\<lparr>subscribed := False,
                    room_subscriptions := map (\<lambda>u. False) (room_subscriptions s)\<rparr>))"

text \<open>\<open>unsubscribes.forEach(u => u())\<close>: the first handle that throws ends the loop.\<close>

fun forEach_handles :: "input_store list \<Rightarrow> error option \<times> input_store list" where
  "forEach_handles [] = (None, [])"
| "forEach_handles (s # rest) =
     (case call_handle s of
        (Some e, s') \<Rightarrow> (Some e, s' # rest)
      | (None, s') \<Rightarrow> (case forEach_handles rest of (e, rest') \<Rightarrow> (e, s' # rest')))"

text \<open>
  The state of one combination: the value of \<open>combined\<close>, the arguments of every
  \<open>combined.set\<close>, the subscribers of \<open>combined\<close> and what was handed to them, and the
  input stores.
\<close>

record combination =
  current :: "message option"
  set_calls :: "message option list"
  subscribers :: "nat list"
  handed :: "(nat \<times> message option) list"
  inputs :: "input_store list"

definition combined_set :: "message option \<Rightarrow> combination \<Rightarrow> combination" where
  "combined_set v C =
     (if v = None \<and> current C = None then C\<lparr>set_calls := set_calls C @ [v]\<rparr>
      else C\<lparr>current := v, set_calls := set_calls C @ [v],
             handed := handed C @ map (\<lambda>k. (k, v)) (subscribers C)\<rparr>)"

text \<open>\<open>combineStores\<close> on input stores, each given with its current value.\<close>

definition combineStores :: "(message option \<times> input_store) list \<Rightarrow> combination" where
  "combineStores stores =
     (foldl (\<lambda>C v. combined_set v C)
        \<lparr>current = None, set_calls = [], subscribers = [], handed = [], inputs = []\<rparr>
        (map fst stores))
     \<lparr>inputs := map (\<lambda>s. (snd s)\<lparr>subscribed := True\<rparr>) stores\<rparr>"

text \<open>The \<open>cleanUp\<close> that \<open>combineStores\<close> returns: what it throws, if anything, and the state it leaves.\<close>

definition cleanUp :: "combination \<Rightarrow> error option \<times> combination" where
  "cleanUp C = (case forEach_handles (inputs C) of (e, ins) \<Rightarrow> (e, C\<lparr>inputs := ins\<rparr>))"

text \<open>
  What else can happen to a combination: input store \<open>i\<close> is set to a value, room \<open>j\<close> of
  input store \<open>i\<close> delivers a message that the room's subscriber sets on the store, or
  somebody subscribes to, or unsubscribes from, the store \<open>combined\<close>.
\<close>

datatype store_event =
  Push nat "message option"
| RoomPush nat nat "message option"
| Subscribe nat
| Unsubscribe nat

definition store_notifies :: "combination \<Rightarrow> nat \<Rightarrow> bool" where
  "store_notifies C i \<longleftrightarrow> i < length (inputs C) \<and> subscribed (inputs C ! i)"

definition room_delivers :: "combination \<Rightarrow> nat \<Rightarrow> nat \<Rightarrow> bool" where
  "room_delivers C i j \<longleftrightarrow>
     i < length (inputs C) \<and> j < length (room_subscriptions (inputs C ! i))
     \<and> room_subscriptions (inputs C ! i) ! j"

fun store_step :: "combination \<Rightarrow> store_event \<Rightarrow> combination" where
  "store_step C (Push i v) = (if store_notifies C i then combined_set v C else C)"
| "store_step C (RoomPush i j v) =
     (if room_delivers C i j \<and> store_notifies C i then combined_set v C else C)"
| "store_step C (Subscribe k) =
     C\<lparr>subscribers := subscribers C @ [k], handed := handed C @ [(k, current C)]\<rparr>"
| "store_step C (Unsubscribe k) = C\<lparr>subscribers := removeAll k (subscribers C)\<rparr>"

text \<open>
  The stores that \<open>sources\<close> combines. \<open>getArchive(mchadLink)\<close> and
  \<open>getLiveTranslations(mchadLink)\<close> are readable stores with an \<open>async\<close> start callback,
  here after each has subscribed to the stream of one room; \<open>sources.mchad\<close> is their
  combination.
\<close>

definition relay_store :: "message option \<times> input_store" where
  "relay_store = (None, \<lparr>subscribed = False, async_start = True, room_subscriptions = [True]\<rparr>)"

definition sources_mchad :: combination where
  "sources_mchad = combineStores [relay_store, relay_store]"

section \<open>sources.js: the handshake of ytcSource\<close>

text \<open>
  The variables of \<open>ytcSource\<close> after \<open>chrome.runtime.connect()\<close> has returned a port,
  with what the function does to the outside: the messages posted on the port, the
  delays of every \<open>setTimeout(registerClient, delay)\<close> and how many of these timers have
  not fired yet, and the lines written with \<open>console.error\<close>.
\<close>

record frame_info =
  tabId :: number
  frameId :: number

datatype post = RegisterClientPost "frame_info" bool









section \<open>Example inputs\<close>

text \<open>
  A chat message and an instance of the imports of sources.js, used to run the
  classifier: \<open>parseTranslation\<close> splits a leading \<open>[en]\<close> tag off, and
  \<open>replaceFirstTranslation\<close> puts the rest of the text into the first span of
  \<open>messageArray\<close>.
\<close>

definition chat_message :: "string \<Rightarrow> string \<Rightarrow> 32 word \<Rightarrow> message" where
  "chat_message author' text' types' =
     \<lparr> text = text', messageArray = [\<lparr> type = ''text'', text = text' \<rparr>], author = author',
       authorId = ''UC'' @ author', langCode = None, messageId = YtcId ''m1'',
       timestamp = ''03:15 PM'', types = types', timestampMs = 1 \<rparr>"

definition example_imports :: "string option imported" where
  "example_imports =
     \<lparr> parseTranslation = (\<lambda>s. if take 5 s = ''[en] '' then Some (drop 5 s) else None),
       parsed_msg = (\<lambda>p. p),
       isTranslation = (\<lambda>p. p \<noteq> None),
       textWhitelisted = (\<lambda>s. s = ''[en] hi''),
       textBlacklisted = (\<lambda>s. False),
       authorWhitelisted = (\<lambda>a. a = ''Alice''),
       authorBlacklisted = (\<lambda>a. a = ''Spammer''),
       replaceFirstTranslation =
         (\<lambda>m. m\<lparr>messageArray := [\<lparr> type = ''text'', text = drop 5 (text m) \<rparr>]\<rparr>),
       showModMessage = True,
       showVerifiedMessage = True,
       moderator = 1,
       owner = 4,
       verified = 2 \<rparr>"

text \<open>
  A relay message, as \<open>getRoomTranslations\<close> emits it and as an entry of an archive script.
\<close>

definition relay_message :: "string \<Rightarrow> string \<Rightarrow> string \<Rightarrow> message" where
  "relay_message author' text' timestamp' =
     \<lparr> text = text', messageArray = [\<lparr> type = ''text'', text = text' \<rparr>],
       author = author', authorId = author', langCode = None, messageId = RelayId 1,
       timestamp = timestamp', types = 16, timestampMs = 0 \<rparr>"

definition relay_entry :: "string \<Rightarrow> string \<Rightarrow> string \<Rightarrow> tl_entry" where
  "relay_entry author' text' timestamp' = addUnix (relay_message author' text' timestamp')"

text \<open>
  An instance of the imports of mchad.js: three languages, a matcher under which the tag
  \<open>multi\<close> matches two of them, and a formatter given on the offsets the examples use.
\<close>

definition example_mchad :: mchad_imported where
  "example_mchad =
     \<lparr> languagesInfo = [\<lparr> code = ''en'' \<rparr>, \<lparr> code = ''jp'' \<rparr>, \<lparr> code = ''es'' \<rparr>],
       isLangMatch = (\<lambda>tag lang. tag = code lang \<or> (tag = ''eng'' \<and> code lang = ''en'')
                                  \<or> (tag = ''multi'' \<and> code lang \<noteq> ''es'')),
       formatTimestampMillis = (\<lambda>ms. if ms = 5 then ''00:00:00'' else if ms = 0 then ''00:00:00''
                                   else if ms = 65000 then ''00:01:05'' else if ms = 7000 then ''00:00:07''
                                   else ''-1:59:58''),
       localeTime = (\<lambda>u. ''3:15:07 PM''),
       AuthorType_mchad = 16 \<rparr>"

definition example_room :: room where
  "example_room = \<lparr> Nick = ''Alice'', Room = ''Alice'', Link = ''YT_abc'', Tags = ''eng jp'' \<rparr>"

text \<open>The script of the spec's scenario, and one with an entry before the stream start.\<close>

definition scenario_script :: "MCHADTL list" where
  "scenario_script =
     [\<lparr> Stext = ''--Stream Start--'', Stime = 1000 \<rparr>, \<lparr> Stext = ''hello'', Stime = 1005 \<rparr>]"

definition unordered_script :: "MCHADTL list" where
  "unordered_script =
     [\<lparr> Stext = ''early'', Stime = 8000 \<rparr>, \<lparr> Stext = ''-- stream START --'', Stime = 10000 \<rparr>,
      \<lparr> Stext = ''b'', Stime = 75000 \<rparr>, \<lparr> Stext = ''a'', Stime = 17000 \<rparr>]"

text \<open>Events of a live room, and a run that mixes them with an archive script.\<close>

definition live_item :: "string \<Rightarrow> string \<Rightarrow> int \<Rightarrow> stream_item option" where
  "live_item flag' text' time' = Some \<lparr> flag = Some flag', content = \<lparr> Stext = text', Stime = time' \<rparr> \<rparr>"

definition example_constructions :: "construction list" where
  "example_constructions =
     [Live True example_room (live_item ''insert'' ''hi'' 20000),
      Archive example_room unordered_script,
      Live True example_room (live_item ''delete'' ''hi'' 20000),
      Live True example_room (live_item ''update'' ''ho'' 9000)]"

text \<open>Calls of \<open>getRooms\<close> of which the third is the first to find a live room.\<close>

definition example_getRooms :: "nat \<Rightarrow> room list" where
  "example_getRooms k = (if k < 2 then [] else [example_room])"

text \<open>A relay message for a room to deliver after a teardown.\<close>

definition late_message :: message where
  "late_message = relay_message ''Alice'' ''late'' ''03:17 PM''"


section \<open>The classifier\<close>

lemma attachFilters_blacklisted:
  "isBlacklisted E m \<Longrightarrow> attachFilters E (Some m) = None"
  by (simp add: attachFilters_def)

text \<open>
  C1. A chat message that is blacklisted, by its text or by its author, is routed to no
  stream: the callback of \<open>attachFilters\<close> makes no write and the stores stay as they
  were, whatever the translation test and the whitelist say about the message.
\<close>

theorem C1_blacklisted_not_routed:
  assumes "textBlacklisted E (text m) \<or> authorBlacklisted E (author m)"
  shows "attachFilters E (Some m) = None \<and> chat_subscriber E (Some m) S = S"
proof -
  from assms have "isBlacklisted E m"
    by (simp add: isBlacklisted_def)
  then have "attachFilters E (Some m) = None"
    by (rule attachFilters_blacklisted)
  then show ?thesis
    by (simp add: chat_subscriber_def)
qed

theorem C1_blacklisted_not_routed_witness:
  "authorBlacklisted example_imports (author (chat_message ''Spammer'' ''[en] hi'' 1))
   \<and> isTranslation example_imports (parseTranslation example_imports ''[en] hi'')
   \<and> isWhitelisted example_imports (chat_message ''Spammer'' ''[en] hi'' 1)
   \<and> attachFilters example_imports (Some (chat_message ''Spammer'' ''[en] hi'' 1)) = None
   \<and> chat_subscriber example_imports (Some (chat_message ''Spammer'' ''[en] hi'' 1)) (\<lambda>s. None)
       = (\<lambda>s. None)"
  using C1_blacklisted_not_routed
    [of example_imports "chat_message ''Spammer'' ''[en] hi'' 1" "\<lambda>s. None"]
  by (simp add: example_imports_def chat_message_def isWhitelisted_def)

section \<open>What the classifier writes\<close>

lemma attachFilters_cases:

  assumes "attachFilters E (Some m) = Some (s, v)"
  shows "(trim (text m) \<noteq> [] \<and> isTranslation E (parseTranslation E (trim (text m)))
          \<and> s = ChatTranslations
          \<and> v = (replaceFirstTranslation E m)\<lparr>text :=
                (case parsed_msg E (parseTranslation E (trim (text m))) of
                   Some t \<Rightarrow> t | None \<Rightarrow> text (replaceFirstTranslation E m))\<rparr>)
       \<or> (\<not> (trim (text m) \<noteq> [] \<and> isTranslation E (parseTranslation E (trim (text m)))) \<and> v = m)"
  using assms
  by (auto simp: attachFilters_def setStoreMessage_def Let_def split: if_splits)

text \<open>
  C10, as the code has it. A message routed on the whitelist, moderator or verified
  branch is written unchanged, its text included. On the translation branch the value
  written is a copy of \<open>replaceFirstTranslation(message)\<close>, not of the incoming message:
  every field other than \<open>text\<close> is that of \<open>replaceFirstTranslation(message)\<close>, and \<open>text\<close>
  is \<open>parsed.msg\<close> when that is given and the text of \<open>replaceFirstTranslation(message)\<close>
  otherwise.
\<close>

theorem C10_written_value:
  assumes "attachFilters E (Some m) = Some (s, v)"
  shows "if trim (text m) \<noteq> [] \<and> isTranslation E (parseTranslation E (trim (text m)))
         then s = ChatTranslations
            \<and> v = (replaceFirstTranslation E m)\<lparr>text :=
                (case parsed_msg E (parseTranslation E (trim (text m))) of
                   Some t \<Rightarrow> t | None \<Rightarrow> text (replaceFirstTranslation E m))\<rparr>
         else v = m"
  using attachFilters_cases [OF assms] by auto

theorem C10_written_value_witness:
  "attachFilters example_imports (Some (chat_message ''Bob'' ''[en] hi'' 0))
     = Some (ChatTranslations,
         (chat_message ''Bob'' ''[en] hi'' 0)\<lparr>text := ''hi'', messageArray := [\<lparr> type = ''text'', text = ''hi'' \<rparr>]\<rparr>)
   \<and> attachFilters example_imports (Some (chat_message ''Mod'' ''hello'' 1))
     = Some (Mod, chat_message ''Mod'' ''hello'' 1)"
  using C10_written_value [of example_imports "chat_message ''Bob'' ''[en] hi'' 0" ChatTranslations
      "(chat_message ''Bob'' ''[en] hi'' 0)\<lparr>text := ''hi'', messageArray := [\<lparr> type = ''text'', text = ''hi'' \<rparr>]\<rparr>"]
    C10_written_value [of example_imports "chat_message ''Mod'' ''hello'' 1" Mod "chat_message ''Mod'' ''hello'' 1"]
  by (simp add: attachFilters_def example_imports_def chat_message_def isBlacklisted_def
      isWhitelisted_def showIfMod_def isMod_def setStoreMessage_def trim_def is_space_def Let_def)

text \<open>
  C10 as stated fails on the translation branch as soon as \<open>replaceFirstTranslation\<close>
  changes a field other than \<open>text\<close>: here it rewrites \<open>messageArray\<close>, and the value
  written differs from the incoming message in that field.
\<close>

theorem C10_counterexample:
  "attachFilters example_imports (Some (chat_message ''Bob'' ''[en] hi'' 0))
     = Some (ChatTranslations,
         (chat_message ''Bob'' ''[en] hi'' 0)\<lparr>text := ''hi'', messageArray := [\<lparr> type = ''text'', text = ''hi'' \<rparr>]\<rparr>)
   \<and> messageArray ((chat_message ''Bob'' ''[en] hi'' 0)\<lparr>text := ''hi'', messageArray := [\<lparr> type = ''text'', text = ''hi'' \<rparr>]\<rparr>)
      \<noteq> messageArray (chat_message ''Bob'' ''[en] hi'' 0)"
  by (simp add: attachFilters_def example_imports_def chat_message_def isBlacklisted_def
      isWhitelisted_def showIfMod_def isMod_def setStoreMessage_def trim_def is_space_def Let_def)

section \<open>The relay subscribers and the suppression registry\<close>

lemma author_relay_message: "author (relay_message a t ts) = a"
  by (simp add: relay_message_def)

lemma author_relay_entry: "author (relay_entry a t ts) = a"
  by (simp add: relay_entry_def relay_message_def addUnix_def message.defs)

text \<open>
  C2, as the code has it. The callbacks of \<open>getArchive\<close> and \<open>getLiveTranslations\<close> test
  the flag stored for the author, not the presence of the author: a relay message whose
  author is stored with the flag \<open>True\<close> is never forwarded, and one whose author is
  stored with the flag \<open>False\<close> is forwarded whenever \<open>enableMchadTLs\<close> is on.
\<close>

theorem C2_suppressed_by_flag:
  "(users (author t) = Some True \<longrightarrow> getArchive_subscriber enableMchadTLs users (Some t) = None)
   \<and> (users (author m) = Some True \<longrightarrow> getLiveTranslations_subscriber enableMchadTLs users (Some m) = None)
   \<and> (enableMchadTLs \<and> users (author t) = Some False
        \<longrightarrow> getArchive_subscriber enableMchadTLs users (Some t) = Some t)
   \<and> (enableMchadTLs \<and> users (author m) = Some False
        \<longrightarrow> getLiveTranslations_subscriber enableMchadTLs users (Some m) = Some m)"
  by (simp add: getArchive_subscriber_def getLiveTranslations_subscriber_def mchadUsers_get_def)

theorem C2_suppressed_by_flag_witness:
  "getArchive_subscriber True [''Alice'' \<mapsto> True] (Some (relay_entry ''Alice'' ''hello'' ''00:00:05'')) = None
   \<and> getLiveTranslations_subscriber True [''Alice'' \<mapsto> True]
        (Some (relay_message ''Alice'' ''hello'' ''03:15 PM'')) = None
   \<and> getArchive_subscriber True [''Bob'' \<mapsto> False] (Some (relay_entry ''Bob'' ''hello'' ''00:00:05''))
       = Some (relay_entry ''Bob'' ''hello'' ''00:00:05'')
   \<and> getLiveTranslations_subscriber True [''Bob'' \<mapsto> False]
        (Some (relay_message ''Bob'' ''hello'' ''03:15 PM''))
       = Some (relay_message ''Bob'' ''hello'' ''03:15 PM'')"
  using C2_suppressed_by_flag [where users = "[''Alice'' \<mapsto> True]"
        and t = "relay_entry ''Alice'' ''hello'' ''00:00:05''"
        and m = "relay_message ''Alice'' ''hello'' ''03:15 PM''" and enableMchadTLs = True]
    C2_suppressed_by_flag [where users = "[''Bob'' \<mapsto> False]"
        and t = "relay_entry ''Bob'' ''hello'' ''00:00:05''"
        and m = "relay_message ''Bob'' ''hello'' ''03:15 PM''" and enableMchadTLs = True]
  by (simp add: author_relay_entry author_relay_message)

text \<open>
  C2 as stated fails. \<open>getArchive\<close> itself stores the author of an archive script with
  the flag the author had, \<open>False\<close> for an author not heard of; the author is then a key
  of the registry, and both callbacks forward the author's messages.
\<close>

theorem C2_counterexample:
  "getArchive_register [[relay_entry ''Alice'' ''hello'' ''00:00:05'']] Map.empty
     = Inr [''Alice'' \<mapsto> False]
   \<and> ''Alice'' \<in> dom [''Alice'' \<mapsto> False]
   \<and> getArchive_subscriber True [''Alice'' \<mapsto> False]
        (Some (relay_entry ''Alice'' ''hello'' ''00:00:05''))
     = Some (relay_entry ''Alice'' ''hello'' ''00:00:05'')
   \<and> getLiveTranslations_subscriber True [''Alice'' \<mapsto> False]
        (Some (relay_message ''Alice'' ''hello'' ''03:15 PM''))
     = Some (relay_message ''Alice'' ''hello'' ''03:15 PM'')"
  by (simp add: getArchive_register_def getScriptAuthor_def isNotEmpty_def mchadUsers_set_def
      mchadUsers_get_def getArchive_subscriber_def getLiveTranslations_subscriber_def
      author_relay_entry author_relay_message)

section \<open>The language of a room\<close>

lemma concat_possible_last:
  assumes "\<forall>u\<in>set post. f u = []" and "f t \<noteq> []"
  shows "concat (map f (pre @ t # post)) \<noteq> [] \<and> last (concat (map f (pre @ t # post))) = last (f t)"
proof -
  have "concat (map f post) = []" using assms(1) by (induction post) auto
  then have "concat (map f (pre @ t # post)) = concat (map f pre) @ f t" by simp
  with assms(2) show ?thesis by simp
qed

text \<open>
  C4. \<open>getRoomTagLanguageCode\<close> splits the tag at white space and collects, token by
  token, the entries of \<open>languagesInfo\<close> that \<open>isLangMatch\<close> accepts for the token. When
  no token has a match the result is \<open>null\<close>; otherwise it is the code of the last match:
  the last entry of the table that matches the last token that has a match.
\<close>

theorem C4_last_match:
  "((\<forall>t\<in>set (split_ws tag). \<forall>lang\<in>set (languagesInfo E). \<not> isLangMatch E t lang)
      \<longrightarrow> getRoomTagLanguageCode E tag = None)
   \<and> (split_ws tag = pre @ t # post
       \<and> languagesInfo E = before @ lang # after
       \<and> isLangMatch E t lang
       \<and> (\<forall>l\<in>set after. \<not> isLangMatch E t l)
       \<and> (\<forall>u\<in>set post. \<forall>l\<in>set (languagesInfo E). \<not> isLangMatch E u l)
      \<longrightarrow> getRoomTagLanguageCode E tag = Some (code lang))"
proof (intro conjI impI)
  assume none: "\<forall>t\<in>set (split_ws tag). \<forall>lang\<in>set (languagesInfo E). \<not> isLangMatch E t lang"
  then have "\<forall>t\<in>set (split_ws tag). possibleLanguages E t = []"
    by (simp add: possibleLanguages_def filter_empty_conv)
  then show "getRoomTagLanguageCode E tag = None"
    by (simp add: getRoomTagLanguageCode_def Let_def)
next
  assume h: "split_ws tag = pre @ t # post
       \<and> languagesInfo E = before @ lang # after
       \<and> isLangMatch E t lang
       \<and> (\<forall>l\<in>set after. \<not> isLangMatch E t l)
       \<and> (\<forall>u\<in>set post. \<forall>l\<in>set (languagesInfo E). \<not> isLangMatch E u l)"
  have after: "filter (isLangMatch E t) after = []"
    using h by (simp add: filter_empty_conv)
  have pt: "possibleLanguages E t = filter (isLangMatch E t) before @ [lang]"
    using h after by (simp add: possibleLanguages_def)
  have post: "\<forall>u\<in>set post. possibleLanguages E u = []"
    using h by (simp add: possibleLanguages_def filter_empty_conv)
  have ne: "possibleLanguages E t \<noteq> []" using pt by simp
  from concat_possible_last [OF post ne, of pre]
  have "concat (map (possibleLanguages E) (split_ws tag)) \<noteq> []"
    and "last (concat (map (possibleLanguages E) (split_ws tag))) = lang"
    using h pt by simp_all
  then show "getRoomTagLanguageCode E tag = Some (code lang)"
    by (simp add: getRoomTagLanguageCode_def Let_def last_conv_nth)
qed

theorem C4_last_match_witness:
  "split_ws '' xx yy'' = [[], ''xx'', ''yy'']
   \<and> getRoomTagLanguageCode example_mchad '' xx yy'' = None
   \<and> split_ws ''eng  jp xx'' = [''eng'', ''jp'', ''xx'']
   \<and> getRoomTagLanguageCode example_mchad ''eng  jp xx'' = Some ''jp''
   \<and> split_ws ''en multi'' = [''en'', ''multi'']
   \<and> getRoomTagLanguageCode example_mchad ''en multi'' = Some ''jp''"
proof -
  have s1: "split_ws '' xx yy'' = [[], ''xx'', ''yy'']"
    by code_simp
  have s2: "split_ws ''eng  jp xx'' = [''eng'', ''jp'', ''xx'']"
    by code_simp
  have s3: "split_ws ''en multi'' = [''en'', ''multi'']"
    by code_simp
  have h1: "\<forall>t\<in>set (split_ws '' xx yy''). \<forall>lang\<in>set (languagesInfo example_mchad).
              \<not> isLangMatch example_mchad t lang"
    unfolding s1 by (simp add: example_mchad_def)
  have h2: "split_ws ''eng  jp xx'' = [''eng''] @ ''jp'' # [''xx'']
       \<and> languagesInfo example_mchad = [\<lparr> code = ''en'' \<rparr>] @ \<lparr> code = ''jp'' \<rparr> # [\<lparr> code = ''es'' \<rparr>]
       \<and> isLangMatch example_mchad ''jp'' \<lparr> code = ''jp'' \<rparr>
       \<and> (\<forall>l\<in>set [\<lparr> code = ''es'' \<rparr>]. \<not> isLangMatch example_mchad ''jp'' l)
       \<and> (\<forall>u\<in>set [''xx'']. \<forall>l\<in>set (languagesInfo example_mchad). \<not> isLangMatch example_mchad u l)"
    unfolding s2 by (simp add: example_mchad_def)
  have h3: "split_ws ''en multi'' = [''en''] @ ''multi'' # []
       \<and> languagesInfo example_mchad = [\<lparr> code = ''en'' \<rparr>] @ \<lparr> code = ''jp'' \<rparr> # [\<lparr> code = ''es'' \<rparr>]
       \<and> isLangMatch example_mchad ''multi'' \<lparr> code = ''jp'' \<rparr>
       \<and> (\<forall>l\<in>set [\<lparr> code = ''es'' \<rparr>]. \<not> isLangMatch example_mchad ''multi'' l)
       \<and> (\<forall>u\<in>set []. \<forall>l\<in>set (languagesInfo example_mchad). \<not> isLangMatch example_mchad u l)"
    unfolding s3 by (simp add: example_mchad_def)
  have r1: "getRoomTagLanguageCode example_mchad '' xx yy'' = None"
    using C4_last_match [where E = example_mchad and tag = "'' xx yy''" and pre = "[]"
      and t = "[]" and post = "[]" and before = "[]" and lang = "\<lparr> code = ''en'' \<rparr>" and after = "[]"] h1
    by blast
  have r2: "getRoomTagLanguageCode example_mchad ''eng  jp xx'' = Some (code \<lparr> code = ''jp'' \<rparr>)"
    using C4_last_match [where E = example_mchad and tag = "''eng  jp xx''" and pre = "[''eng'']"
      and t = "''jp''" and post = "[''xx'']" and before = "[\<lparr> code = ''en'' \<rparr>]"
      and lang = "\<lparr> code = ''jp'' \<rparr>" and after = "[\<lparr> code = ''es'' \<rparr>]"] h2
    by blast
  have r3: "getRoomTagLanguageCode example_mchad ''en multi'' = Some (code \<lparr> code = ''jp'' \<rparr>)"
    using C4_last_match [where E = example_mchad and tag = "''en multi''" and pre = "[''en'']"
      and t = "''multi''" and post = "[]" and before = "[\<lparr> code = ''en'' \<rparr>]"
      and lang = "\<lparr> code = ''jp'' \<rparr>" and after = "[\<lparr> code = ''es'' \<rparr>]"] h3
    by blast
  from s1 s2 s3 r1 r2 r3 show ?thesis
    by simp
qed

section \<open>The start of an archive\<close>

subsection \<open>The search for the marker\<close>

lemma one_line_simps [simp]:
  "one_line []" "one_line (c # s) \<longleftrightarrow> \<not> is_line_terminator c \<and> one_line s"
  "one_line (s @ t) \<longleftrightarrow> one_line s \<and> one_line t"
  by (auto simp: one_line_def)

lemma starts_ci_iff:
  "starts_ci p s \<longleftrightarrow> (\<exists>S r. s = S @ r \<and> map lower S = map lower p)"
proof (induction p s rule: starts_ci.induct)
  case (1 s)
  show ?case by simp
next
  case (2 p ps)
  show ?case by simp
next
  case (3 p ps c cs)
  show ?case
  proof
    assume "starts_ci (p # ps) (c # cs)"
    then have "lower c = lower p" and "starts_ci ps cs" by simp_all
    with 3 obtain S r where "cs = S @ r" "map lower S = map lower ps" by blast
    with \<open>lower c = lower p\<close> have "c # cs = (c # S) @ r \<and> map lower (c # S) = map lower (p # ps)"
      by simp
    then show "\<exists>S r. c # cs = S @ r \<and> map lower S = map lower (p # ps)" by blast
  next
    assume "\<exists>S r. c # cs = S @ r \<and> map lower S = map lower (p # ps)"
    then obtain S r where a: "c # cs = S @ r" "map lower S = map lower (p # ps)" by blast
    then obtain S' where "S = c # S'" by (cases S) auto
    with a have "lower c = lower p" "cs = S' @ r" "map lower S' = map lower ps" by simp_all
    with 3 show "starts_ci (p # ps) (c # cs)" by auto
  qed
qed

lemma starts_ci_drop:
  assumes "starts_ci p s"
  shows "\<exists>S. s = S @ drop (length p) s \<and> map lower S = map lower p"
proof -
  from assms obtain S r where a: "s = S @ r" "map lower S = map lower p"
    by (auto simp: starts_ci_iff)
  then have "length (map lower S) = length (map lower p)" by simp
  then have "length S = length p" by simp
  with a show ?thesis by auto
qed

lemma after_ci_sound:
  "after_ci p s = Some r \<Longrightarrow> \<exists>b S. s = b @ S @ r \<and> map lower S = map lower p \<and> one_line b"
proof (induction s)
  case Nil
  then show ?case by (auto split: if_splits)
next
  case (Cons c cs)
  show ?case
  proof (cases "starts_ci p (c # cs)")
    case True
    with Cons.prems have r: "r = drop (length p) (c # cs)" by simp
    from starts_ci_drop [OF True] obtain S where "c # cs = S @ r" "map lower S = map lower p"
      unfolding r by blast
    then have "c # cs = [] @ S @ r \<and> map lower S = map lower p \<and> one_line []" by simp
    then show ?thesis by blast
  next
    case False
    with Cons.prems have nt: "\<not> is_line_terminator c" and "after_ci p cs = Some r"
      by (auto split: if_splits)
    with Cons.IH obtain b S where "cs = b @ S @ r" "map lower S = map lower p" "one_line b" by blast
    with nt have "c # cs = (c # b) @ S @ r \<and> map lower S = map lower p \<and> one_line (c # b)" by simp
    then show ?thesis by blast
  qed
qed

lemma lower_terminator: "is_line_terminator (lower c) \<longleftrightarrow> is_line_terminator c"
proof (cases "65 \<le> (of_char c :: nat) \<and> (of_char c :: nat) \<le> 90")
  case False
  then show ?thesis by (auto simp: lower_def Let_def)
next
  case True
  then have l: "lower c = char_of ((of_char c :: nat) + 32)"
    by (simp add: lower_def Let_def)
  have m: "((of_char c :: nat) + 32) mod 256 = of_char c + 32"
    using True by simp
  have "of_char (lower c) = (of_char c :: nat) + 32"
    unfolding l by (simp only: of_char_of m)
  then have "(of_char (lower c) :: nat) \<noteq> 10" and "(of_char (lower c) :: nat) \<noteq> 13"
    using True by simp_all
  then have a: "\<not> is_line_terminator (lower c)"
    by (auto simp: is_line_terminator_def)
  from True have "(of_char c :: nat) \<noteq> 10" and "(of_char c :: nat) \<noteq> 13"
    by simp_all
  then have b: "\<not> is_line_terminator c"
    by (auto simp: is_line_terminator_def)
  from a b show ?thesis by simp
qed

lemma one_line_map_lower: "map lower S = map lower p \<Longrightarrow> one_line S = one_line p"
proof (induction S arbitrary: p)
  case Nil
  then show ?case by simp
next
  case (Cons c S)
  then obtain d p' where p: "p = d # p'" by (cases p) auto
  with Cons.prems have "lower c = lower d" and "map lower S = map lower p'" by simp_all
  with Cons.IH [of p'] lower_terminator [of c] lower_terminator [of d] show ?case
    by (simp add: p)
qed

lemma after_ci_starts: "starts_ci p s \<Longrightarrow> after_ci p s = Some (drop (length p) s)"
  by (cases s) (auto simp: starts_ci_iff)

lemma after_ci_complete:
  assumes "map lower S = map lower p" and "one_line p"
  shows "one_line b \<Longrightarrow> \<exists>x. after_ci p (b @ S @ r) = Some (x @ r) \<and> one_line x"
proof (induction b)
  case Nil
  have "starts_ci p (S @ r)" using assms(1) by (auto simp: starts_ci_iff)
  moreover have "length (map lower S) = length (map lower p)"
    using assms(1) by (rule arg_cong)
  then have "length S = length p" by simp
  moreover note this
  ultimately have "after_ci p (S @ r) = Some ([] @ r)"
    by (simp add: after_ci_starts)
  then show ?case by auto
next
  case (Cons c b)
  then obtain x where x: "after_ci p (b @ S @ r) = Some (x @ r)" "one_line x" and nt: "\<not> is_line_terminator c"
    by auto
  show ?case
  proof (cases "starts_ci p ((c # b) @ S @ r)")
    case False
    with x nt show ?thesis by auto
  next
    case True
    have oS: "one_line S"
      using one_line_map_lower [OF assms(1)] assms(2) by simp
    have "length (map lower S) = length (map lower p)"
      using assms(1) by (rule arg_cong)
    then have le: "length p \<le> length ((c # b) @ S)"
      by simp
    have "drop (length p) (c # b @ S @ r) = drop (length p) (c # b @ S) @ r"
      using drop_append [of "length p" "c # b @ S" r] le by simp
    with after_ci_starts [OF True]
    have "after_ci p ((c # b) @ S @ r) = Some (drop (length p) ((c # b) @ S) @ r)"
      by simp
    moreover have "one_line (drop (length p) ((c # b) @ S))"
    proof -
      have "one_line ((c # b) @ S)"
        using Cons.prems oS by simp
      moreover have "set (drop (length p) ((c # b) @ S)) \<subseteq> set ((c # b) @ S)"
        by (rule set_drop_subset)
      ultimately show ?thesis
        unfolding one_line_def by blast
    qed
    ultimately show ?thesis by blast
  qed
qed

lemma lower_literals:
  "map lower ''--'' = ''--''" "map lower ''stream'' = ''stream''" "map lower ''start'' = ''start''"
  by (simp_all add: lower_def)

lemma one_line_literals: "one_line ''--''" "one_line ''stream''" "one_line ''start''"
  by (simp_all add: is_line_terminator_def)

lemma marker_here_iff: "marker_here s \<longleftrightarrow> marker_split s"
proof
  assume "marker_here s"
  then have st: "starts_ci ''--'' s"
    and "\<exists>r1 r2 r3. after_ci ''stream'' (drop 2 s) = Some r1 \<and> after_ci ''start'' r1 = Some r2
            \<and> after_ci ''--'' r2 = Some r3"
    by (auto simp: marker_here_def split: if_splits option.splits)
  then obtain r1 r2 r3 where r: "after_ci ''stream'' (drop 2 s) = Some r1"
    "after_ci ''start'' r1 = Some r2" "after_ci ''--'' r2 = Some r3"
    by blast
  have "length ''--'' = 2" by simp
  with starts_ci_drop [OF st] obtain D where D: "s = D @ drop 2 s" "map lower D = map lower ''--''"
    by metis
  from after_ci_sound [OF r(1)] obtain b S where 1: "drop 2 s = b @ S @ r1"
    "map lower S = map lower ''stream''" "one_line b" by blast
  from after_ci_sound [OF r(2)] obtain c T where 2: "r1 = c @ T @ r2"
    "map lower T = map lower ''start''" "one_line c" by blast
  from after_ci_sound [OF r(3)] obtain d D' where 3: "r2 = d @ D' @ r3"
    "map lower D' = map lower ''--''" "one_line d" by blast
  have e: "s = D @ b @ S @ c @ T @ d @ D' @ r3"
    using D(1) 1(1) 2(1) 3(1) by simp
  have "s = D @ b @ S @ c @ T @ d @ D' @ r3
        \<and> map lower D = ''--'' \<and> map lower S = ''stream'' \<and> map lower T = ''start''
        \<and> map lower D' = ''--'' \<and> one_line b \<and> one_line c \<and> one_line d"
    using e D(2) 1(2,3) 2(2,3) 3(2,3) by (simp only: lower_literals simp_thms)
  then show "marker_split s"
    unfolding marker_split_def
    by (intro exI [where x = D] exI [where x = b] exI [where x = S] exI [where x = c]
        exI [where x = T] exI [where x = d] exI [where x = D'] exI [where x = r3])
next
  assume "marker_split s"
  then have "\<exists>D b S c T d D' e.
        s = D @ b @ S @ c @ T @ d @ D' @ e
        \<and> map lower D = ''--'' \<and> map lower S = ''stream'' \<and> map lower T = ''start''
        \<and> map lower D' = ''--'' \<and> one_line b \<and> one_line c \<and> one_line d"
    by (simp only: marker_split_def)
  then obtain D b S c T d D' e where s: "s = D @ b @ S @ c @ T @ d @ D' @ e"
    and l0: "map lower D = ''--''" "map lower S = ''stream''"
      "map lower T = ''start''" "map lower D' = ''--''"
    and o: "one_line b" "one_line c" "one_line d"
    by (elim exE conjE)
  from l0 have l: "map lower D = map lower ''--''" "map lower S = map lower ''stream''"
      "map lower T = map lower ''start''" "map lower D' = map lower ''--''"
    by (simp_all only: lower_literals)
  have st: "starts_ci ''--'' s"
    unfolding s starts_ci_iff using l(1) by blast
  have "length (map lower D) = length ''--''" using l0(1) by (rule arg_cong)
  then have "length D = 2" by simp
  then have d2: "drop 2 s = b @ S @ (c @ T @ d @ D' @ e)"
    unfolding s by simp
  from after_ci_complete [OF l(2) one_line_literals(2) o(1), of "c @ T @ d @ D' @ e"]
  obtain x1 where 1: "after_ci ''stream'' (drop 2 s) = Some (x1 @ c @ T @ d @ D' @ e)" "one_line x1"
    unfolding d2 by blast
  have "one_line (x1 @ c)" using 1(2) o(2) by simp
  from after_ci_complete [OF l(3) one_line_literals(3) this, of "d @ D' @ e"]
  obtain x2 where 2: "after_ci ''start'' (x1 @ c @ T @ d @ D' @ e) = Some (x2 @ d @ D' @ e)" "one_line x2"
    by (simp only: append_assoc) blast
  have "one_line (x2 @ d)" using 2(2) o(3) by simp
  from after_ci_complete [OF l(4) one_line_literals(1) this, of e]
  obtain x3 where 3: "after_ci ''--'' (x2 @ d @ D' @ e) = Some (x3 @ e)"
    by (simp only: append_assoc) blast
  from st 1(1) 2(1) 3 show "marker_here s"
    by (simp add: marker_here_def)
qed

text \<open>
  \<open>isStreamStart\<close> decides the regular expression: it holds of a string exactly when the
  pattern matches at some position of it.
\<close>

lemma isStreamStart_iff: "isStreamStart s \<longleftrightarrow> (\<exists>a t. s = a @ t \<and> marker_split t)"
proof (induction s)
  case Nil
  have "\<not> marker_split []"
    by (auto simp: marker_split_def)
  then show ?case by simp
next
  case (Cons c cs)
  show ?case
  proof
    assume "isStreamStart (c # cs)"
    then consider "marker_here (c # cs)" | "isStreamStart cs" by auto
    then show "\<exists>a t. c # cs = a @ t \<and> marker_split t"
    proof cases
      case 1
      then have "c # cs = [] @ (c # cs) \<and> marker_split (c # cs)"
        by (simp add: marker_here_iff)
      then show ?thesis by blast
    next
      case 2
      with Cons.IH obtain a t where "cs = a @ t" "marker_split t" by blast
      then have "c # cs = (c # a) @ t \<and> marker_split t" by simp
      then show ?thesis by blast
    qed
  next
    assume "\<exists>a t. c # cs = a @ t \<and> marker_split t"
    then obtain a t where at: "c # cs = a @ t" "marker_split t" by blast
    show "isStreamStart (c # cs)"
    proof (cases a)
      case Nil
      with at have "marker_split (c # cs)" by simp
      then show ?thesis by (simp add: marker_here_iff)
    next
      case (Cons c' a')
      with at have "cs = a' @ t" by simp
      with at(2) Cons.IH show ?thesis by auto
    qed
  qed
qed

subsection \<open>The first time of a script\<close>

lemma find_first_match:
  assumes "\<forall>s\<in>set pre. \<not> P s" and "P e"
  shows "find P (pre @ e # post) = Some e"
  using assms by (induction pre) auto

text \<open>
  C5, as the code has it. \<open>getFirstTime\<close> is 0 on the empty script, the \<open>Stime\<close> of the
  first entry when no entry carries the stream-start marker, and otherwise the \<open>Stime\<close>
  of the first entry that carries it. For the script of the scenario \<open>firstTime\<close> is
  1000, and the second entry gets the offset \<open>Stime - firstTime = 5\<close>, in the unit of
  \<open>Stime\<close> and with no scaling, displayed as \<open>formatTimestampMillis(5)\<close>.
\<close>

theorem C5_firstTime:
  "getFirstTime [] = 0
   \<and> ((\<forall>s\<in>set (e # rest). \<not> isStreamStart (Stext s)) \<longrightarrow> getFirstTime (e # rest) = Stime e)
   \<and> ((\<forall>s\<in>set pre. \<not> isStreamStart (Stext s)) \<and> isStreamStart (Stext e)
        \<longrightarrow> getFirstTime (pre @ e # post) = Stime e)
   \<and> getFirstTime [\<lparr> Stext = ''--Stream Start--'', Stime = 1000 \<rparr>, \<lparr> Stext = ''hello'', Stime = 1005 \<rparr>] = 1000
   \<and> map timestampMs (fst (getArchiveFromRoom E room
        [\<lparr> Stext = ''--Stream Start--'', Stime = 1000 \<rparr>, \<lparr> Stext = ''hello'', Stime = 1005 \<rparr>] c)) = [0, 5]
   \<and> map timestamp (fst (getArchiveFromRoom E room
        [\<lparr> Stext = ''--Stream Start--'', Stime = 1000 \<rparr>, \<lparr> Stext = ''hello'', Stime = 1005 \<rparr>] c))
       = [formatTimestampMillis E 0, formatTimestampMillis E 5]"
proof -
  have marker: "isStreamStart ''--Stream Start--''" by code_simp
  have a: "getFirstTime [] = 0" by (simp add: getFirstTime_def)
  have b: "getFirstTime (e # rest) = Stime e" if "\<forall>s\<in>set (e # rest). \<not> isStreamStart (Stext s)"
  proof -
    from that have "find (\<lambda>s. isStreamStart (Stext s)) (e # rest) = None"
      by (simp only: find_None_iff) blast
    then show ?thesis by (simp add: getFirstTime_def)
  qed
  have c: "getFirstTime (pre @ e # post) = Stime e"
    if "\<forall>s\<in>set pre. \<not> isStreamStart (Stext s)" and "isStreamStart (Stext e)"
    using find_first_match [of pre "\<lambda>s. isStreamStart (Stext s)" e post] that
    by (simp add: getFirstTime_def)
  have d: "getFirstTime [\<lparr> Stext = ''--Stream Start--'', Stime = 1000 \<rparr>, \<lparr> Stext = ''hello'', Stime = 1005 \<rparr>] = 1000"
    using marker by (simp add: getFirstTime_def)
  have e: "map timestampMs (fst (getArchiveFromRoom E room
        [\<lparr> Stext = ''--Stream Start--'', Stime = 1000 \<rparr>, \<lparr> Stext = ''hello'', Stime = 1005 \<rparr>] c)) = [0, 5]"
    by (simp add: getArchiveFromRoom_def d Let_def mchadToMessage_def archiveUnixToNumber_def)
  have f: "map timestamp (fst (getArchiveFromRoom E room
        [\<lparr> Stext = ''--Stream Start--'', Stime = 1000 \<rparr>, \<lparr> Stext = ''hello'', Stime = 1005 \<rparr>] c))
       = [formatTimestampMillis E 0, formatTimestampMillis E 5]"
    by (simp add: getArchiveFromRoom_def d Let_def mchadToMessage_def archiveUnixToTimestamp_def)
  from a b c d e f show ?thesis by blast
qed

theorem C5_firstTime_witness:
  "getFirstTime [\<lparr> Stext = ''hello'', Stime = 42 \<rparr>, \<lparr> Stext = ''bye'', Stime = 50 \<rparr>] = 42
   \<and> getFirstTime unordered_script = 10000"
proof -
  have n1: "\<not> isStreamStart ''early''" by code_simp
  have n2: "\<not> isStreamStart ''hello''" by code_simp
  have n3: "\<not> isStreamStart ''bye''" by code_simp
  have y1: "isStreamStart ''-- stream START --''" by code_simp
  have h1: "\<forall>s\<in>set (\<lparr> Stext = ''hello'', Stime = 42 \<rparr> # [\<lparr> Stext = ''bye'', Stime = 50 \<rparr>]).
              \<not> isStreamStart (Stext s)"
    using n2 n3 by simp
  have h2: "(\<forall>s\<in>set [\<lparr> Stext = ''early'', Stime = 8000 \<rparr>]. \<not> isStreamStart (Stext s))
            \<and> isStreamStart (Stext \<lparr> Stext = ''-- stream START --'', Stime = 10000 \<rparr>)"
    using n1 y1 by simp
  have r1: "getFirstTime (\<lparr> Stext = ''hello'', Stime = 42 \<rparr> # [\<lparr> Stext = ''bye'', Stime = 50 \<rparr>])
              = Stime \<lparr> Stext = ''hello'', Stime = 42 \<rparr>"
    using C5_firstTime [where E = example_mchad and room = example_room and c = 0
      and e = "\<lparr> Stext = ''hello'', Stime = 42 \<rparr>"
      and rest = "[\<lparr> Stext = ''bye'', Stime = 50 \<rparr>]" and pre = "[]" and post = "[]"] h1
    by blast
  have r2: "getFirstTime ([\<lparr> Stext = ''early'', Stime = 8000 \<rparr>]
               @ \<lparr> Stext = ''-- stream START --'', Stime = 10000 \<rparr>
               # [\<lparr> Stext = ''b'', Stime = 75000 \<rparr>, \<lparr> Stext = ''a'', Stime = 17000 \<rparr>])
              = Stime \<lparr> Stext = ''-- stream START --'', Stime = 10000 \<rparr>"
    using C5_firstTime [where E = example_mchad and room = example_room and c = 0
      and e = "\<lparr> Stext = ''-- stream START --'', Stime = 10000 \<rparr>"
      and rest = "[]" and pre = "[\<lparr> Stext = ''early'', Stime = 8000 \<rparr>]"
      and post = "[\<lparr> Stext = ''b'', Stime = 75000 \<rparr>, \<lparr> Stext = ''a'', Stime = 17000 \<rparr>]"] h2
    by blast
  from r1 r2 show ?thesis
    by (simp add: unordered_script_def)
qed

text \<open>
  C5 as stated fails in its scenario: the second entry's \<open>timestampMs\<close> is 5, not 5000.
\<close>

theorem C5_counterexample:
  "timestampMs (fst (getArchiveFromRoom example_mchad example_room scenario_script 0) ! 1) = 5
   \<and> timestampMs (fst (getArchiveFromRoom example_mchad example_room scenario_script 0) ! 1) \<noteq> 5000"
proof -
  have marker: "isStreamStart ''--Stream Start--''" by code_simp
  then have d: "getFirstTime scenario_script = 1000"
    by (simp add: getFirstTime_def scenario_script_def)
  show ?thesis
    by (simp add: getArchiveFromRoom_def d Let_def)
       (simp add: scenario_script_def mchadToMessage_def archiveUnixToNumber_def)
qed

section \<open>Messages built from a script\<close>

lemma fst_map_counter_Cons:
  "fst (map_counter f (x # xs) c) = fst (f x c) # fst (map_counter f xs (snd (f x c)))"
  by (simp split: prod.splits)

lemma snd_map_counter_Cons:
  "snd (map_counter f (x # xs) c) = snd (map_counter f xs (snd (f x c)))"
  by (simp split: prod.splits)

lemma snd_map_counter_mchadToMessage:
  "snd (map_counter (mchadToMessage E a f g lc) script c) = c + length script"
  by (induction script arbitrary: c)
     (simp_all add: snd_map_counter_Cons mchadToMessage_def del: map_counter.simps(2))

lemma messageId_map_counter_mchadToMessage:
  "map messageId (fst (map_counter (mchadToMessage E a f g lc) script c))
     = map RelayId [Suc c ..< Suc c + length script]"
proof (induction script arbitrary: c)
  case Nil
  show ?case by simp
next
  case (Cons d ds)
  have "[Suc c ..< Suc c + length (d # ds)] = Suc c # [Suc (Suc c) ..< Suc (Suc c) + length ds]"
    by (simp add: upt_conv_Cons del: upt_Suc)
  then show ?case
    using Cons.IH [of "Suc c"]
    by (simp add: fst_map_counter_Cons mchadToMessage_def del: map_counter.simps(2) upt_Suc)
qed

lemma timestamp_map_counter_mchadToMessage:
  "map timestamp (fst (map_counter (mchadToMessage E a f g lc) script c))
     = map (\<lambda>d. f (Stime d)) script"
  by (induction script arbitrary: c)
     (simp_all add: fst_map_counter_Cons mchadToMessage_def del: map_counter.simps(2))

lemma timestampMs_map_counter_mchadToMessage:
  "map timestampMs (fst (map_counter (mchadToMessage E a f g lc) script c))
     = map (\<lambda>d. g (Stime d)) script"
  by (induction script arbitrary: c)
     (simp_all add: fst_map_counter_Cons mchadToMessage_def del: map_counter.simps(2))

lemma unix_addUnix: "unix (addUnix m) = archiveTimeToInt (timestamp m)"
  by (simp add: addUnix_def message.defs tl_entry.defs)

lemma fst_getScript:
  "fst (getScript E room script c)
     = sortBy unix (filter (\<lambda>e. js_ge0 (unix e)) (map addUnix (fst (getArchiveFromRoom E room script c))))"
  by (simp add: getScript_def split: prod.splits)

lemma sorted_sortBy_nonneg:
  assumes "\<forall>e\<in>set xs. js_ge0 (attr e)"
  shows "sorted_wrt (\<lambda>a b. \<exists>x y. attr a = Some x \<and> attr b = Some y \<and> x \<le> y) (sortBy attr xs)"
proof -
  let ?k = "\<lambda>e. case attr e of Some r \<Rightarrow> r | None \<Rightarrow> 0"
  have "sorted (map ?k (sortBy attr xs))"
    by (simp add: sortBy_def)
  then have s: "sorted_wrt (\<lambda>a b. ?k a \<le> ?k b) (sortBy attr xs)"
    by (simp add: sorted_wrt_map)
  have some: "\<exists>x. attr e = Some x" if "e \<in> set (sortBy attr xs)" for e
  proof -
    from that have "e \<in> set xs" by (simp add: sortBy_def)
    with assms have "js_ge0 (attr e)" by blast
    then show ?thesis by (cases "attr e") (simp_all add: js_ge0_def)
  qed
  show ?thesis
  proof (rule sorted_wrt_mono_rel [OF _ s])
    fix a b
    assume "a \<in> set (sortBy attr xs)" and "b \<in> set (sortBy attr xs)" and le: "?k a \<le> ?k b"
    then obtain x y where "attr a = Some x" and "attr b = Some y"
      using some by blast
    with le show "\<exists>x y. attr a = Some x \<and> attr b = Some y \<and> x \<le> y"
      by simp
  qed
qed

text \<open>
  C3. The sequence that \<open>getArchive\<close> prepares for an archive room holds exactly the
  entries of the script whose recomputed offset is a number not below 0, as often as the
  script has them, in non-decreasing order of that offset. The offset of an entry is
  \<open>archiveTimeToInt\<close> of its elapsed-time string: each component between the colons read
  by \<open>parseInt\<close>, times 60 to the power 2 minus its index, summed.
\<close>

theorem C3_prepared_sequence:
  "mset (fst (getScript E room script c))
     = filter_mset (\<lambda>e. js_ge0 (unix e))
         (mset (map addUnix (fst (getArchiveFromRoom E room script c))))
   \<and> sorted_wrt (\<lambda>a b. \<exists>x y. unix a = Some x \<and> unix b = Some y \<and> x \<le> y)
        (fst (getScript E room script c))
   \<and> map unix (map addUnix (fst (getArchiveFromRoom E room script c)))
       = map (\<lambda>s. archiveTimeToInt (formatTimestampMillis E (Stime s - getFirstTime script))) script"
proof (intro conjI)
  show "mset (fst (getScript E room script c))
     = filter_mset (\<lambda>e. js_ge0 (unix e))
         (mset (map addUnix (fst (getArchiveFromRoom E room script c))))"
    by (simp add: fst_getScript sortBy_def)
next
  show "sorted_wrt (\<lambda>a b. \<exists>x y. unix a = Some x \<and> unix b = Some y \<and> x \<le> y)
        (fst (getScript E room script c))"
    unfolding fst_getScript by (rule sorted_sortBy_nonneg) simp
next
  have t: "map timestamp (fst (getArchiveFromRoom E room script c))
       = map (\<lambda>s. formatTimestampMillis E (Stime s - getFirstTime script)) script"
    by (simp add: getArchiveFromRoom_def Let_def timestamp_map_counter_mchadToMessage
        archiveUnixToTimestamp_def)
  have "map unix (map addUnix ms) = map archiveTimeToInt (map timestamp ms)" for ms
    by (simp add: unix_addUnix)
  then have "map unix (map addUnix (fst (getArchiveFromRoom E room script c)))
       = map archiveTimeToInt (map (\<lambda>s. formatTimestampMillis E (Stime s - getFirstTime script)) script)"
    by (simp only: t)
  then show "map unix (map addUnix (fst (getArchiveFromRoom E room script c)))
       = map (\<lambda>s. archiveTimeToInt (formatTimestampMillis E (Stime s - getFirstTime script))) script"
    by (simp add: comp_def)
qed

theorem C3_prepared_sequence_witness:
  "map (\<lambda>e. (text e, unix e)) (map addUnix (fst (getArchiveFromRoom example_mchad example_room unordered_script 0)))
     = [(''early'', Some (- 2)), (''-- stream START --'', Some 0), (''b'', Some 65), (''a'', Some 7)]
   \<and> map (\<lambda>e. (text e, unix e)) (fst (getScript example_mchad example_room unordered_script 0))
     = [(''-- stream START --'', Some 0), (''a'', Some 7), (''b'', Some 65)]
   \<and> sorted_wrt (\<lambda>a b. \<exists>x y. unix a = Some x \<and> unix b = Some y \<and> x \<le> y)
        (fst (getScript example_mchad example_room unordered_script 0))"
proof -
  have a: "map (\<lambda>e. (text e, unix e)) (map addUnix (fst (getArchiveFromRoom example_mchad example_room unordered_script 0)))
     = [(''early'', Some (- 2)), (''-- stream START --'', Some 0), (''b'', Some 65), (''a'', Some 7)]"
    by code_simp
  have b: "map (\<lambda>e. (text e, unix e)) (fst (getScript example_mchad example_room unordered_script 0))
     = [(''-- stream START --'', Some 0), (''a'', Some 7), (''b'', Some 65)]"
    by code_simp
  from a b C3_prepared_sequence [of example_mchad example_room unordered_script 0]
  show ?thesis by blast
qed

section \<open>The ids of relay messages\<close>

lemma ids_getArchiveFromRoom:
  "map messageId (fst (getArchiveFromRoom E room script c)) = map RelayId [Suc c ..< Suc c + length script]
   \<and> snd (getArchiveFromRoom E room script c) = c + length script"
  by (simp add: getArchiveFromRoom_def Let_def messageId_map_counter_mchadToMessage
      snd_map_counter_mchadToMessage)

lemma ids_getRoomTranslations:
  "getRoomTranslations E en room data c = (r, c') \<Longrightarrow>
     (r = None \<and> c' = c) \<or> (\<exists>m. r = Some m \<and> messageId m = RelayId (Suc c) \<and> c' = Suc c)"
  by (auto simp: getRoomTranslations_def Let_def mchadToMessage_def split: if_splits option.splits)

lemma upt_split:
  "c \<le> c' \<Longrightarrow> c' \<le> c'' \<Longrightarrow> [Suc c ..< Suc c''] = [Suc c ..< Suc c'] @ [Suc c' ..< Suc c'']"
  by (metis Suc_le_mono le_Suc_ex upt_add_eq_append)

lemma ids_construct:
  "map messageId (fst (construct E cs c)) = map RelayId [Suc c ..< Suc (snd (construct E cs c))]
   \<and> c \<le> snd (construct E cs c)"
proof (induction cs arbitrary: c)
  case Nil
  show ?case by simp
next
  case (Cons x rest)
  show ?case
  proof (cases x)
    case (Archive room script)
    obtain ms c' where a: "getArchiveFromRoom E room script c = (ms, c')"
      by (cases "getArchiveFromRoom E room script c")
    obtain ms' c'' where b: "construct E rest c' = (ms', c'')"
      by (cases "construct E rest c'")
    from ids_getArchiveFromRoom [of E room script c] a
    have 1: "map messageId ms = map RelayId [Suc c ..< Suc c']" and 2: "c \<le> c'"
      by simp_all
    from Cons.IH [of c'] b
    have 3: "map messageId ms' = map RelayId [Suc c' ..< Suc c'']" and 4: "c' \<le> c''"
      by simp_all
    have e: "construct E (x # rest) c = (ms @ ms', c'')"
      by (simp add: Archive a b)
    from 1 3 upt_split [OF 2 4] 2 4 show ?thesis
      unfolding e by (simp del: upt_Suc)
  next
    case (Live en room data)
    obtain r c' where a: "getRoomTranslations E en room data c = (r, c')"
      by (cases "getRoomTranslations E en room data c")
    obtain ms' c'' where b: "construct E rest c' = (ms', c'')"
      by (cases "construct E rest c'")
    from Cons.IH [of c'] b
    have 3: "map messageId ms' = map RelayId [Suc c' ..< Suc c'']" and 4: "c' \<le> c''"
      by simp_all
    from ids_getRoomTranslations [OF a] show ?thesis
    proof
      assume n: "r = None \<and> c' = c"
      from a n have a': "getRoomTranslations E en room data c = (None, c)"
        by simp
      from b n have b': "construct E rest c = (ms', c'')"
        by simp
      have e: "construct E (x # rest) c = (ms', c'')"
        by (simp add: Live a' b')
      from 3 4 n show ?thesis
        unfolding e by (simp del: upt_Suc)
    next
      assume "\<exists>m. r = Some m \<and> messageId m = RelayId (Suc c) \<and> c' = Suc c"
      then obtain m where m: "r = Some m" "messageId m = RelayId (Suc c)" "c' = Suc c"
        by blast
      have u: "[Suc c ..< Suc c''] = Suc c # [Suc c' ..< Suc c'']"
        using 4 m(3) by (simp add: upt_conv_Cons del: upt_Suc)
      from a m have a': "getRoomTranslations E en room data c = (Some m, Suc c)"
        by simp
      from b m have b': "construct E rest (Suc c) = (ms', c'')"
        by simp
      have e: "construct E (x # rest) c = (m # ms', c'')"
        by (simp add: Live a' b')
      from 3 4 m u show ?thesis
        unfolding e by (simp del: upt_Suc)
    qed
  qed
qed

text \<open>
  C8. Whatever archive scripts are mapped and live events are handled, and in whatever
  order, the relay messages built carry, in the order of their construction, the ids
  \<open>c + 1\<close>, \<open>c + 2\<close>, ... after the value \<open>c\<close> that \<open>mchadTLCounter\<close> had before: no two share
  an id, the ids increase strictly, and the counter ends at \<open>c\<close> plus their number.
\<close>

theorem C8_ids_increase:
  "map messageId (fst (construct E cs c))
     = map RelayId [Suc c ..< Suc c + length (fst (construct E cs c))]
   \<and> distinct (map messageId (fst (construct E cs c)))
   \<and> sorted_wrt (<) (map relay_id (fst (construct E cs c)))
   \<and> snd (construct E cs c) = c + length (fst (construct E cs c))"
proof -
  let ?ms = "fst (construct E cs c)" and ?c' = "snd (construct E cs c)"
  have ids: "map messageId ?ms = map RelayId [Suc c ..< Suc ?c']" and le: "c \<le> ?c'"
    using ids_construct [of E cs c] by simp_all
  from ids have "length ?ms = ?c' - c"
    by (metis length_map length_upt diff_Suc_Suc)
  with le have len: "?c' = c + length ?ms"
    by simp
  have rid: "map relay_id ?ms = [Suc c ..< Suc ?c']"
  proof -
    have "map relay_id ?ms = map (\<lambda>i. case i of RelayId n \<Rightarrow> n | YtcId _ \<Rightarrow> 0) (map messageId ?ms)"
      by (simp add: relay_id_def comp_def)
    also have "\<dots> = [Suc c ..< Suc ?c']"
      unfolding ids by (simp add: comp_def del: upt_Suc)
    finally show ?thesis .
  qed
  have d: "distinct (map messageId ?ms)"
    unfolding ids by (simp add: distinct_map inj_on_def del: upt_Suc)
  have s: "sorted_wrt (<) (map relay_id ?ms)"
    unfolding rid by (simp del: upt_Suc)
  from ids len d s show ?thesis
    by (metis add_Suc)
qed

theorem C8_ids_increase_witness:
  "map messageId (fst (construct example_mchad example_constructions 0))
    = [RelayId 1, RelayId 2, RelayId 3, RelayId 4, RelayId 5, RelayId 6]
   \<and> map text (fst (construct example_mchad example_constructions 0))
    = [''hi'', ''early'', ''-- stream START --'', ''b'', ''a'', ''ho'']"
proof -
  have l: "length (fst (construct example_mchad example_constructions 0)) = 6"
    by code_simp
  have t: "map text (fst (construct example_mchad example_constructions 0))
    = [''hi'', ''early'', ''-- stream START --'', ''b'', ''a'', ''ho'']"
    by code_simp
  from C8_ids_increase [of example_mchad example_constructions 0] l
  have "map messageId (fst (construct example_mchad example_constructions 0))
    = map RelayId [Suc 0 ..< Suc 0 + 6]"
    by simp
  then show ?thesis
    using t by (simp add: upt_conv_Cons del: upt_Suc)
qed

section \<open>Waiting for a live room\<close>

lemma retry_from:
  assumes "\<forall>j<n. getRooms_live (k + j) = []" and "getRooms_live (k + n) \<noteq> []"
  shows "getLiveRoomsWithRetry getRooms_live retryInterval k slept
           = Some (getRooms_live (k + n), slept @ replicate n (retryInterval * 1000))"
  using assms
proof (induction n arbitrary: k slept)
  case 0
  then show ?case
    by (subst getLiveRoomsWithRetry.simps) simp
next
  case (Suc n)
  from Suc.prems(1) have e: "getRooms_live k = []"
    by (metis add_0_right zero_less_Suc)
  have "\<forall>j<n. getRooms_live (Suc k + j) = []"
    using Suc.prems(1) by (metis Suc_less_eq add_Suc_shift)
  moreover have "getRooms_live (Suc k + n) \<noteq> []"
    using Suc.prems(2) by simp
  ultimately have "getLiveRoomsWithRetry getRooms_live retryInterval (Suc k) (slept @ [retryInterval * 1000])
      = Some (getRooms_live (Suc k + n), (slept @ [retryInterval * 1000]) @ replicate n (retryInterval * 1000))"
    by (rule Suc.IH)
  then show ?case
    by (subst getLiveRoomsWithRetry.simps) (simp add: e replicate_app_Cons_same)
qed

lemma retry_returns_only_live:
  assumes "getLiveRoomsWithRetry getRooms_live retryInterval k slept = Some y"
  shows "\<exists>j. getRooms_live j \<noteq> []"
proof (rule getLiveRoomsWithRetry.raw_induct
    [where P = "\<lambda>g ri k sl y. \<exists>j. g j \<noteq> []", OF _ assms])
  fix loop :: "(nat \<Rightarrow> room list) \<Rightarrow> int \<Rightarrow> nat \<Rightarrow> int list \<Rightarrow> (room list \<times> int list) option"
    and g ri k sl y
  assume IH: "\<And>g ri k sl y. loop g ri k sl = Some y \<Longrightarrow> \<exists>j. g j \<noteq> []"
    and eq: "(if length (g k) \<noteq> 0 then Some (g k, sl)
              else loop g ri (Suc k) (sl @ [ri * 1000])) = Some y"
  show "\<exists>j. g j \<noteq> []"
  proof (cases "length (g k) \<noteq> 0")
    case True
    then show ?thesis by auto
  next
    case False
    with eq have "loop g ri (Suc k) (sl @ [ri * 1000]) = Some y"
      by simp
    then show ?thesis by (rule IH)
  qed
qed

lemma retry_never:
  assumes "\<forall>j. getRooms_live j = []"
  shows "getLiveRoomsWithRetry getRooms_live retryInterval k slept = None"
proof (cases "getLiveRoomsWithRetry getRooms_live retryInterval k slept")
  case None
  then show ?thesis .
next
  case (Some y)
  then have "\<exists>j. getRooms_live j \<noteq> []"
    by (rule retry_returns_only_live)
  with assms show ?thesis by blast
qed

text \<open>
  C6. \<open>getLiveRoomsWithRetry\<close> returns the \<open>live\<close> list of the first call of \<open>getRooms\<close>
  that resolves to a non-empty one, having slept \<open>retryInterval * 1000\<close> milliseconds
  once after each call before it. \<open>getLiveTranslations\<close> waits with 30 seconds: when
  the first two calls find no live room and the third finds one, it sleeps exactly
  twice, 30000 milliseconds each, and gets the third list. A run in which no call
  ever finds a live room does not return.
\<close>

theorem C6_retry_until_live:
  "((\<forall>j<n. getRooms_live j = []) \<and> getRooms_live n \<noteq> []
      \<longrightarrow> getLiveRoomsWithRetry getRooms_live retryInterval 0 []
            = Some (getRooms_live n, replicate n (retryInterval * 1000)))
   \<and> (getRooms_live 0 = [] \<and> getRooms_live 1 = [] \<and> getRooms_live 2 \<noteq> []
      \<longrightarrow> getLiveTranslations_rooms getRooms_live = Some (getRooms_live 2, [30000, 30000]))
   \<and> ((\<forall>j. getRooms_live j = [])
      \<longrightarrow> getLiveRoomsWithRetry getRooms_live retryInterval 0 [] = None)"
proof (intro conjI impI)
  assume "(\<forall>j<n. getRooms_live j = []) \<and> getRooms_live n \<noteq> []"
  then show "getLiveRoomsWithRetry getRooms_live retryInterval 0 []
            = Some (getRooms_live n, replicate n (retryInterval * 1000))"
    using retry_from [of n getRooms_live 0 retryInterval "[]"] by simp
next
  assume h: "getRooms_live 0 = [] \<and> getRooms_live 1 = [] \<and> getRooms_live 2 \<noteq> []"
  then have h': "getRooms_live 0 = []" "getRooms_live (Suc 0) = []" "getRooms_live (Suc (Suc 0)) \<noteq> []"
    by (simp_all add: numeral_2_eq_2)
  have "\<forall>j<Suc (Suc 0). getRooms_live (0 + j) = []"
    using h' by (simp add: less_Suc_eq)
  moreover have "getRooms_live (0 + Suc (Suc 0)) \<noteq> []"
    using h' by simp
  ultimately have "getLiveRoomsWithRetry getRooms_live 30 0 []
      = Some (getRooms_live (0 + Suc (Suc 0)), [] @ replicate (Suc (Suc 0)) (30 * 1000))"
    by (rule retry_from)
  then show "getLiveTranslations_rooms getRooms_live = Some (getRooms_live 2, [30000, 30000])"
    by (simp add: getLiveTranslations_rooms_def numeral_2_eq_2)
next
  assume "\<forall>j. getRooms_live j = []"
  then show "getLiveRoomsWithRetry getRooms_live retryInterval 0 [] = None"
    by (rule retry_never)
qed

theorem C6_retry_until_live_witness:
  "getLiveRoomsWithRetry example_getRooms 30 0 [] = Some ([example_room], [30000, 30000])
   \<and> getLiveTranslations_rooms example_getRooms = Some ([example_room], [30000, 30000])
   \<and> getLiveRoomsWithRetry (\<lambda>k. []) 30 0 [] = None"
proof -
  have h1: "(\<forall>j<2. example_getRooms j = []) \<and> example_getRooms 2 \<noteq> []"
    by (simp add: example_getRooms_def)
  have h2: "example_getRooms 0 = [] \<and> example_getRooms 1 = [] \<and> example_getRooms 2 \<noteq> []"
    by (simp add: example_getRooms_def)
  have h3: "\<forall>j. (\<lambda>k. []) j = ([] :: room list)"
    by simp
  have v: "example_getRooms 2 = [example_room]"
    by (simp add: example_getRooms_def)
  have r: "replicate 2 (30 * 1000) = [30000, 30000 :: int]"
    by (simp add: numeral_2_eq_2)
  from C6_retry_until_live [of 2 example_getRooms 30] h1 h2
  have "getLiveRoomsWithRetry example_getRooms 30 0 [] = Some (example_getRooms 2, replicate 2 (30 * 1000))"
    and "getLiveTranslations_rooms example_getRooms = Some (example_getRooms 2, [30000, 30000])"
    by blast+
  moreover from C6_retry_until_live [of 0 "\<lambda>k. []" 30] h3
  have "getLiveRoomsWithRetry (\<lambda>k. []) 30 0 [] = None"
    by blast
  ultimately show ?thesis
    unfolding v r by blast
qed

section \<open>Tearing a combination down\<close>

lemma forEach_handles_sync:
  assumes "\<forall>s\<in>set ins. \<not> async_start s"
  shows "forEach_handles ins
           = (None, map (\<lambda>s. s\<lparr>subscribed := False,
                                  room_subscriptions := map (\<lambda>u. False) (room_subscriptions s)\<rparr>) ins)"
  using assms by (induction ins) (simp_all add: call_handle_def)

lemma detached_step:
  assumes "\<forall>s\<in>set (inputs C). \<not> subscribed s"
  shows "inputs (store_step C ev) = inputs C
       \<and> set_calls (store_step C ev) = set_calls C
       \<and> current (store_step C ev) = current C"
proof -
  have n: "\<not> store_notifies C i" for i
    using assms by (auto simp: store_notifies_def)
  show ?thesis
    by (cases ev) (simp_all add: n)
qed

lemma detached_run:
  assumes "\<forall>s\<in>set (inputs C). \<not> subscribed s"
  shows "inputs (foldl store_step C evs) = inputs C
       \<and> set_calls (foldl store_step C evs) = set_calls C
       \<and> current (foldl store_step C evs) = current C"
  using assms
proof (induction evs arbitrary: C)
  case Nil
  show ?case by simp
next
  case (Cons ev evs)
  from detached_step [OF Cons.prems, of ev]
  have 1: "inputs (store_step C ev) = inputs C"
    and 2: "set_calls (store_step C ev) = set_calls C"
    and 3: "current (store_step C ev) = current C"
    by blast+
  from Cons.prems 1 have "\<forall>s\<in>set (inputs (store_step C ev)). \<not> subscribed s"
    by simp
  from Cons.IH [OF this] 1 2 3 show ?case by simp
qed

text \<open>
  A combination of stores none of which has an \<open>async\<close> start callback is torn down by
  its \<open>cleanUp\<close>: nothing is thrown, no input store and no room stays subscribed, and
  whatever happens afterwards \<open>combined.set\<close> is not called again.
\<close>

lemma cleanUp_of_sync_stores:
  assumes "\<forall>s\<in>set (inputs C). \<not> async_start s"
  shows "fst (cleanUp C) = None
       \<and> (\<forall>s\<in>set (inputs (snd (cleanUp C))). \<not> subscribed s \<and> True \<notin> set (room_subscriptions s))
       \<and> set_calls (foldl store_step (snd (cleanUp C)) evs) = set_calls C
       \<and> current (foldl store_step (snd (cleanUp C)) evs) = current C"
proof -
  let ?off = "\<lambda>s. s\<lparr>subscribed := False,
                     room_subscriptions := map (\<lambda>u. False) (room_subscriptions s)\<rparr>"
  have c: "cleanUp C = (None, C\<lparr>inputs := map ?off (inputs C)\<rparr>)"
    by (simp add: cleanUp_def forEach_handles_sync [OF assms])
  have d: "\<forall>s\<in>set (inputs (snd (cleanUp C))). \<not> subscribed s \<and> True \<notin> set (room_subscriptions s)"
    unfolding c by auto
  then have "\<forall>s\<in>set (inputs (snd (cleanUp C))). \<not> subscribed s"
    by blast
  from detached_run [OF this, of evs] c d show ?thesis
    by simp
qed

text \<open>
  C7 fails on the code. The combined relay store is \<open>sources.mchad\<close>, the combination of
  \<open>getArchive(mchadLink)\<close> and \<open>getLiveTranslations(mchadLink)\<close>. Both are readable stores
  with an \<open>async\<close> start callback, so the function that would unsubscribe their rooms is
  inside a promise. \<open>cleanUp\<close> throws a \<open>TypeError\<close> at the handle of the first store: that
  store loses the callback, the second store keeps it, and every room stays
  subscribed. A message that a live room delivers afterwards is set on \<open>combined\<close> and
  handed to its subscriber. Unsubscribing from the combined store, the only teardown
  that \<open>sources\<close> keeps, calls no handle at all.
\<close>

theorem C7_relay_teardown_fails:
  "fst (cleanUp sources_mchad) = Some TypeError
   \<and> map subscribed (inputs (snd (cleanUp sources_mchad))) = [False, True]
   \<and> map room_subscriptions (inputs (snd (cleanUp sources_mchad))) = [[True], [True]]
   \<and> set_calls (snd (cleanUp sources_mchad)) = [None, None]
   \<and> set_calls (foldl store_step (snd (cleanUp sources_mchad))
        [Subscribe 0, RoomPush 1 0 (Some late_message)])
       = [None, None, Some late_message]
   \<and> handed (foldl store_step (snd (cleanUp sources_mchad))
        [Subscribe 0, RoomPush 1 0 (Some late_message)])
       = [(0, None), (0, Some late_message)]
   \<and> map subscribed (inputs (foldl store_step sources_mchad [Subscribe 0, Unsubscribe 0]))
       = [True, True]
   \<and> set_calls (foldl store_step sources_mchad
        [Subscribe 0, Unsubscribe 0, RoomPush 0 0 (Some late_message)])
       = [None, None, Some late_message]"
  by (simp add: sources_mchad_def relay_store_def combineStores_def combined_set_def cleanUp_def
      call_handle_def store_notifies_def room_delivers_def)

section \<open>The handshake of ytcSource\<close>













end
